theory Spec2Isabelle
  imports Complex_Main
begin

section \<open>The TVL aggregation pipeline of \<open>TVLMonitor.tsx\<close>\<close>

text \<open>
  The development embeds \<open>calculateStrategyWrapperTVL\<close> (src/src/TVLMonitor.tsx, lines
  120 to 679): event pagination, object resolution, field extraction, the adaptive batch
  fetcher with its controller, the cleanup pass and the final report.

  Conventions of the embedding.
  \<^item> Integer-valued JavaScript numbers (indices, batch size, delay in ms) are \<open>int\<close>;
    counters that are only incremented or reset are \<open>nat\<close>.
  \<^item> USD amounts are \<open>real\<close>: the code divides a raw 18-decimals integer by \<open>10 ** 18\<close>
    in double precision; the embedding divides exactly. No property below depends on
    the rounding of that division.
  \<^item> The remote services are oracles in the record \<open>Env\<close>. A call that throws or
    rejects, or whose answer makes the enclosing \<open>try\<close> block throw, is the value \<open>None\<close>.
  \<^item> Remote calls to the position service and timer waits are recorded in order in a
    list of \<open>effect\<close>s. The requests of one batch run concurrently in the code; the
    list holds them record by record, which is one of the possible interleavings.
  \<^item> Log lines (\<open>addResult\<close>) change no variable of the pipeline and are left out.
\<close>

subsection \<open>Data\<close>

record StrategyCapInfo =
  objectId :: string
  obligationId :: string
  strategyType :: int
  owner :: string

text \<open>\<open>ObligationSummary\<close> carries the four fields of \<open>StrategyCapInfo\<close> and three amounts.\<close>

record ObligationSummary = StrategyCapInfo +
  deposited_value_usd :: real
  unweighted_borrowed_value_usd :: real
  net_value_usd :: real

text \<open>
  The running variables \<open>obligations\<close>, \<open>totalTVL\<close>, \<open>totalDeposits\<close>, \<open>totalBorrows\<close>
  of the function; \<open>TVLSummary\<close> has the same four fields and \<open>strategyCount\<close>.
\<close>

record Accumulators =
  obligations :: "ObligationSummary list"
  totalTVL :: real
  totalDeposits :: real
  totalBorrows :: real

record TVLSummary = Accumulators +
  strategyCount :: int

text \<open>What the chain returns: events, objects, obligations.\<close>

record ParsedJson =
  cap_id :: "string option"

record SuiEvent =
  parsedJson :: "ParsedJson option"

record EventPage =
  data :: "SuiEvent list"
  hasNextPage :: bool
  nextCursor :: "string option"

datatype ObjectOwner = AddressOwner string | OtherOwner

record CapFields =
  inner_cap :: "string option option"
  strategy_type :: int

datatype MoveContent = MoveObject CapFields | MovePackage

record SuiObjectData =
  obj_objectId :: string
  obj_content :: "MoveContent option"
  obj_owner :: "ObjectOwner option"

datatype ObjectResponseError = NotExists | Deleted | UnknownError

record SuiObjectResponse =
  obj_data :: "SuiObjectData option"
  obj_error :: "ObjectResponseError option"

text \<open>
  \<open>inner_cap\<close>: \<open>None\<close> is a null (borrowed) inner capability, \<open>Some None\<close> an inner
  capability without \<open>fields\<close>, \<open>Some (Some oid)\<close> one whose fields hold \<open>obligation_id\<close>.
\<close>

record Obligation =
  depositedValueUsd :: "int option"
  unweightedBorrowedValueUsd :: "int option"

text \<open>
  One call of \<open>suilendClient.getObligation\<close> is identified by the place it is made
  from: in the main pass the loop index \<open>i\<close> of the batch, the global index of the
  record and the attempt; in the cleanup pass the index in \<open>failedCapInfos\<close> and the
  attempt. The oracle may answer every call differently.
\<close>

datatype fetch_call = MainFetch int int nat | CleanupFetch nat nat

datatype effect = Fetch fetch_call string | Sleep int

record Env =
  queryEvents :: "string option \<Rightarrow> EventPage option"
  getObject :: "string \<Rightarrow> SuiObjectResponse option"
  initialize :: bool
  getObligation :: "fetch_call \<Rightarrow> string \<Rightarrow> Obligation option"

subsection \<open>The batch controller (lines 283 to 289 and 379 to 450)\<close>

record BatchController =
  currentBatchSize :: int
  currentDelay :: int
  consecutiveSuccesses :: nat
  consecutiveFailures :: nat
  failureRecoveryMode :: bool
  lastFailureCount :: nat

definition initialController :: BatchController where
  "initialController =
     \<lparr>currentBatchSize = 15, currentDelay = 300, consecutiveSuccesses = 0,
      consecutiveFailures = 0, failureRecoveryMode = False, lastFailureCount = 0\<rparr>"

text \<open>
  \<open>batchSuccessRate = (batchSuccesses / batch.length) * 100\<close>. In JavaScript \<open>0 / 0\<close>
  is NaN and \<open>x / 0\<close> is Infinity for positive \<open>x\<close>; every comparison with NaN is false.
  The quotient and \<open>batch.length * 0.2\<close> are computed exactly here. For the counts of a
  batch the doubles of the code decide the tests of the controller the same way: the
  product \<open>n * 0.2\<close> rounds to \<open>n / 5\<close> when 5 divides \<open>n\<close> and is not near an integer
  otherwise; a rate of exactly 70 comes out as the double 70; and the rate is compared
  with 95 and 90 only when it is 100 or NaN.
\<close>

datatype js_number = NaN | PosInfinity | Num real

definition batchSuccessRate :: "nat \<Rightarrow> nat \<Rightarrow> js_number" where
  "batchSuccessRate batchSuccesses batchLength =
     (if batchLength = 0 then (if batchSuccesses = 0 then NaN else PosInfinity)
      else Num (real batchSuccesses / real batchLength * 100))"

fun js_lt :: "js_number \<Rightarrow> real \<Rightarrow> bool" where
  "js_lt NaN y = False"
| "js_lt PosInfinity y = False"
| "js_lt (Num x) y = (x < y)"

fun js_ge :: "js_number \<Rightarrow> real \<Rightarrow> bool" where
  "js_ge NaN y = False"
| "js_ge PosInfinity y = True"
| "js_ge (Num x) y = (x \<ge> y)"

definition hasSignificantFailures :: "nat \<Rightarrow> nat \<Rightarrow> bool" where
  "hasSignificantFailures batchFailures batchLength =
     (int batchFailures > \<lceil>real batchLength * 0.2\<rceil>)"

text \<open>The five branches of the if-chain of lines 387 to 450, in the order of the code.\<close>

datatype branch = AggressiveSlowdown | CautiousAdjustment | NearPerfect | GoodRate | ModerateRate

definition selectBranch :: "nat \<Rightarrow> nat \<Rightarrow> nat \<Rightarrow> branch" where
  "selectBranch batchLength batchSuccesses batchFailures =
     (if batchFailures > 0 then
        (if hasSignificantFailures batchFailures batchLength
            \<or> js_lt (batchSuccessRate batchSuccesses batchLength) 70
         then AggressiveSlowdown else CautiousAdjustment)
      else if js_ge (batchSuccessRate batchSuccesses batchLength) 95 then NearPerfect
      else if js_ge (batchSuccessRate batchSuccesses batchLength) 90 then GoodRate
      else ModerateRate)"

definition exitRecovery :: "BatchController \<Rightarrow> BatchController" where
  "exitRecovery c =
     (if failureRecoveryMode c \<and> consecutiveSuccesses c \<ge> 3
      then c\<lparr>failureRecoveryMode := False\<rparr> else c)"

definition speedUp :: "BatchController \<Rightarrow> BatchController" where
  "speedUp c =
     (if \<not> failureRecoveryMode c \<and> consecutiveSuccesses c \<ge> 2
      then c\<lparr>currentBatchSize := min (currentBatchSize c + 3) 20,
             currentDelay := max (currentDelay c - 100) 100\<rparr>
      else c)"

definition adaptController :: "BatchController \<Rightarrow> nat \<Rightarrow> nat \<Rightarrow> nat \<Rightarrow> BatchController" where
  "adaptController c batchLength batchSuccesses batchFailures =
     (case selectBranch batchLength batchSuccesses batchFailures of
        AggressiveSlowdown \<Rightarrow>
          c\<lparr>lastFailureCount := batchFailures,
            failureRecoveryMode := True,
            consecutiveFailures := consecutiveFailures c + 1,
            consecutiveSuccesses := 0,
            currentBatchSize := max (currentBatchSize c - 5) 3,
            currentDelay := min (currentDelay c + 400) 2000\<rparr>
      | CautiousAdjustment \<Rightarrow>
          c\<lparr>lastFailureCount := batchFailures,
            currentBatchSize := max (currentBatchSize c - 2) 5,
            currentDelay := min (currentDelay c + 200) 2000\<rparr>
      | NearPerfect \<Rightarrow>
          speedUp (exitRecovery
            (c\<lparr>consecutiveSuccesses := consecutiveSuccesses c + 1,
               consecutiveFailures := 0\<rparr>))
      | GoodRate \<Rightarrow>
          c\<lparr>consecutiveSuccesses := consecutiveSuccesses c + 1,
            consecutiveFailures := 0\<rparr>
      | ModerateRate \<Rightarrow>
          (if batchFailures = 0
           then c\<lparr>consecutiveSuccesses := 0, consecutiveFailures := 0\<rparr>
           else c\<lparr>consecutiveSuccesses := 0\<rparr>))"

subsection \<open>Discovery: pagination, identifiers, resolution (lines 133 to 243)\<close>

text \<open>\<open>Array.prototype.slice(start, stop)\<close>, negative indices counting from the end.\<close>

definition slice :: "'a list \<Rightarrow> int \<Rightarrow> int \<Rightarrow> 'a list" where
  "slice xs start stop =
     (let len = int (length xs);
          k = (if start < 0 then max (len + start) 0 else min start len);
          final = (if stop < 0 then max (len + stop) 0 else min stop len)
      in take (nat (final - k)) (drop (nat k) xs))"

text \<open>
  The \<open>while (hasNextPage && pageCount < 20)\<close> loop. A throwing \<open>queryEvents\<close> leaves
  the whole function through its outer \<open>catch\<close>: the result \<open>None\<close>.
\<close>

function fetchEventPages ::
  "Env \<Rightarrow> bool \<Rightarrow> string option \<Rightarrow> nat \<Rightarrow> SuiEvent list \<Rightarrow> SuiEvent list option" where
  "fetchEventPages env hasNext cursor pageCount allCreatedEvents =
     (if hasNext \<and> pageCount < 20 then
        (case queryEvents env cursor of
           None \<Rightarrow> None
         | Some createdEvents \<Rightarrow>
             (if \<not> hasNextPage createdEvents
              then Some (allCreatedEvents @ data createdEvents)
              else fetchEventPages env (hasNextPage createdEvents) (nextCursor createdEvents)
                     (pageCount + 1) (allCreatedEvents @ data createdEvents)))
      else Some allCreatedEvents)"
  by pat_completeness auto
termination
  by (relation "measure (\<lambda>(env, hasNext, cursor, pageCount, evs). 20 - pageCount)") auto

declare fetchEventPages.simps [simp del]

definition normalizeCapId :: "string \<Rightarrow> string" where
  "normalizeCapId s = (if take 2 s = ''0x'' then s else ''0x'' @ s)"

fun extractCapIds :: "SuiEvent list \<Rightarrow> string list" where
  "extractCapIds [] = []"
| "extractCapIds (event # rest) =
     (case parsedJson event of
        None \<Rightarrow> extractCapIds rest
      | Some eventData \<Rightarrow>
          (case cap_id eventData of
             None \<Rightarrow> extractCapIds rest
           | Some s \<Rightarrow> (if s = [] then extractCapIds rest
                       else normalizeCapId s # extractCapIds rest)))"

definition resolveOne :: "Env \<Rightarrow> string \<Rightarrow> SuiObjectResponse option" where
  "resolveOne env capId =
     (case getObject env capId of
        None \<Rightarrow> None
      | Some obj \<Rightarrow> (if obj_data obj \<noteq> None \<and> obj_error obj = None then Some obj else None))"

fun collectResolved ::
  "SuiObjectResponse list \<times> nat \<Rightarrow> SuiObjectResponse option list \<Rightarrow> SuiObjectResponse list \<times> nat" where
  "collectResolved s [] = s"
| "collectResolved (found, notFoundCount) (Some r # rs) = collectResolved (found @ [r], notFoundCount) rs"
| "collectResolved (found, notFoundCount) (None # rs) = collectResolved (found, notFoundCount + 1) rs"

text \<open>The chunks of 50 identifiers of lines 194 to 227.\<close>

function resolveObjects ::
  "Env \<Rightarrow> string list \<Rightarrow> int \<Rightarrow> SuiObjectResponse list \<times> nat \<Rightarrow> SuiObjectResponse list \<times> nat" where
  "resolveObjects env strategyCapIds i s =
     (if i < int (length strategyCapIds)
      then resolveObjects env strategyCapIds (i + 50)
             (collectResolved s (map (resolveOne env) (slice strategyCapIds i (i + 50))))
      else s)"
  by pat_completeness auto
termination
  by (relation "measure (\<lambda>(env, ids, i, s). nat (int (length ids) - i))") auto

declare resolveObjects.simps [simp del]

subsection \<open>Field extraction (lines 246 to 262)\<close>

definition ownerAddress :: "ObjectOwner option \<Rightarrow> string" where
  "ownerAddress ow =
     (case ow of
        Some (AddressOwner a) \<Rightarrow> (if a = [] then ''Unknown'' else a)
      | _ \<Rightarrow> ''Unknown'')"

definition extractCapInfo :: "SuiObjectResponse \<Rightarrow> StrategyCapInfo option" where
  "extractCapInfo capObj =
     (case obj_data capObj of
        None \<Rightarrow> None
      | Some d \<Rightarrow>
          (case obj_content d of
             Some (MoveObject capFields) \<Rightarrow>
               (case inner_cap capFields of
                  Some (Some oid) \<Rightarrow>
                    Some \<lparr>objectId = obj_objectId d, obligationId = oid,
                          strategyType = strategy_type capFields,
                          owner = ownerAddress (obj_owner d)\<rparr>
                | _ \<Rightarrow> None)
           | _ \<Rightarrow> None))"

definition extractCapInfos :: "SuiObjectResponse list \<Rightarrow> StrategyCapInfo list" where
  "extractCapInfos objs = List.map_filter extractCapInfo objs"

subsection \<open>One position fetch with its retries (lines 307 to 356 and 509 to 560)\<close>

definition usdValue :: "int option \<Rightarrow> real" where
  "usdValue v = real_of_int (case v of None \<Rightarrow> 0 | Some x \<Rightarrow> x) / 10 ^ 18"

definition obligationData :: "StrategyCapInfo \<Rightarrow> Obligation \<Rightarrow> ObligationSummary" where
  "obligationData capInfo obligation =
     \<lparr>objectId = objectId capInfo,
      obligationId = obligationId capInfo,
      strategyType = strategyType capInfo,
      owner = owner capInfo,
      deposited_value_usd = usdValue (depositedValueUsd obligation),
      unweighted_borrowed_value_usd = usdValue (unweightedBorrowedValueUsd obligation),
      net_value_usd = usdValue (depositedValueUsd obligation)
                      - usdValue (unweightedBorrowedValueUsd obligation)\<rparr>"

text \<open>
  Main pass: \<open>for (let attempt = 1; attempt <= 3; attempt++)\<close>, returning the summary on
  success, \<open>null\<close> after the third failure, and waiting \<open>attempt * 1000\<close> ms otherwise.
\<close>

function fetchObligationMain ::
  "Env \<Rightarrow> int \<Rightarrow> StrategyCapInfo \<Rightarrow> int \<Rightarrow> nat \<Rightarrow> ObligationSummary option \<times> effect list" where
  "fetchObligationMain env i capInfo globalIndex attempt =
     (if attempt \<le> 3 then
        (case getObligation env (MainFetch i globalIndex attempt) (obligationId capInfo) of
           Some obligation \<Rightarrow>
             (Some (obligationData capInfo obligation),
              [Fetch (MainFetch i globalIndex attempt) (obligationId capInfo)])
         | None \<Rightarrow>
             (if attempt = 3
              then (None, [Fetch (MainFetch i globalIndex attempt) (obligationId capInfo)])
              else (case fetchObligationMain env i capInfo globalIndex (attempt + 1) of
                      (r, es) \<Rightarrow>
                        (r, Fetch (MainFetch i globalIndex attempt) (obligationId capInfo)
                            # Sleep (int attempt * 1000) # es))))
      else (None, []))"
  by pat_completeness auto
termination
  by (relation "measure (\<lambda>(env, i, capInfo, g, attempt). 4 - attempt)") auto

declare fetchObligationMain.simps [simp del]

text \<open>
  Cleanup pass: \<open>for (let attempt = 1; attempt <= 5; attempt++)\<close>, leaving the loop on
  success and waiting \<open>attempt * 2000\<close> ms after a failure when \<open>attempt < 5\<close>.
\<close>

function fetchObligationCleanup ::
  "Env \<Rightarrow> StrategyCapInfo \<Rightarrow> nat \<Rightarrow> nat \<Rightarrow> ObligationSummary option \<times> effect list" where
  "fetchObligationCleanup env capInfo i attempt =
     (if attempt \<le> 5 then
        (case getObligation env (CleanupFetch i attempt) (obligationId capInfo) of
           Some obligation \<Rightarrow>
             (Some (obligationData capInfo obligation),
              [Fetch (CleanupFetch i attempt) (obligationId capInfo)])
         | None \<Rightarrow>
             (case fetchObligationCleanup env capInfo i (attempt + 1) of
                (r, es) \<Rightarrow>
                  (r, Fetch (CleanupFetch i attempt) (obligationId capInfo)
                      # (if attempt < 5 then [Sleep (int attempt * 2000)] else []) @ es)))
      else (None, []))"
  by pat_completeness auto
termination
  by (relation "measure (\<lambda>(env, capInfo, i, attempt). 6 - attempt)") auto

declare fetchObligationCleanup.simps [simp del]

subsection \<open>The adaptive main pass (lines 275 to 473)\<close>

definition pushObligation :: "Accumulators \<Rightarrow> ObligationSummary \<Rightarrow> Accumulators" where
  "pushObligation a r =
     a\<lparr>obligations := obligations a @ [r],
       totalDeposits := totalDeposits a + deposited_value_usd r,
       totalBorrows := totalBorrows a + unweighted_borrowed_value_usd r,
       totalTVL := totalTVL a + deposited_value_usd r\<rparr>"

text \<open>The loop over \<open>batchResults\<close> of lines 366 to 376, with the two batch counters.\<close>

fun tallyBatch ::
  "Accumulators \<times> nat \<times> nat \<Rightarrow> ObligationSummary option list \<Rightarrow> Accumulators \<times> nat \<times> nat" where
  "tallyBatch s [] = s"
| "tallyBatch (a, batchSuccesses, batchFailures) (Some r # rs) =
     tallyBatch (pushObligation a r, batchSuccesses + 1, batchFailures) rs"
| "tallyBatch (a, batchSuccesses, batchFailures) (None # rs) =
     tallyBatch (a, batchSuccesses, batchFailures + 1) rs"

record RunState =
  ctrl :: BatchController
  acc :: Accumulators
  totalProcessed :: nat
  effects :: "effect list"

definition initialState :: RunState where
  "initialState =
     \<lparr>ctrl = initialController,
      acc = \<lparr>obligations = [], totalTVL = 0, totalDeposits = 0, totalBorrows = 0\<rparr>,
      totalProcessed = 0,
      effects = []\<rparr>"

text \<open>\<open>batch.map(async (capInfo, batchIndex) => ...)\<close> with \<open>globalIndex = i + batchIndex\<close>.\<close>

definition fetchBatch ::
  "Env \<Rightarrow> int \<Rightarrow> StrategyCapInfo list \<Rightarrow> (ObligationSummary option \<times> effect list) list" where
  "fetchBatch env i batch =
     map (\<lambda>(capInfo, batchIndex). fetchObligationMain env i capInfo (i + int batchIndex) 1)
         (zip batch [0..<length batch])"

text \<open>
  One iteration of the \<open>for\<close> loop at index \<open>i\<close>: the batch is cut with the batch size
  the iteration starts with, the controller is adapted, and the wait before the next
  batch tests \<open>i + currentBatchSize\<close> with the adapted size.
\<close>

definition processBatch :: "Env \<Rightarrow> StrategyCapInfo list \<Rightarrow> int \<Rightarrow> RunState \<Rightarrow> RunState" where
  "processBatch env strategyCapInfos i st =
     (let batch = slice strategyCapInfos i (i + currentBatchSize (ctrl st));
          fetched = fetchBatch env i batch;
          tallied = tallyBatch (acc st, 0, 0) (map fst fetched);
          c = adaptController (ctrl st) (length batch) (fst (snd tallied)) (snd (snd tallied))
      in \<lparr>ctrl = c,
          acc = fst tallied,
          totalProcessed = totalProcessed st + length batch,
          effects = effects st @ concat (map snd fetched)
                    @ (if i + currentBatchSize c < int (length strategyCapInfos)
                       then [Sleep (currentDelay c)] else [])\<rparr>)"

text \<open>
  \<open>for (let i = 0; i < strategyCapInfos.length; i += currentBatchSize)\<close>: the increment
  is evaluated after the body, so it adds the batch size the body has just set. The loop
  makes progress only while that size is positive; not returning is the value \<open>None\<close>.
\<close>

partial_function (option) mainLoop ::
  "Env \<Rightarrow> StrategyCapInfo list \<Rightarrow> int \<Rightarrow> RunState \<Rightarrow> RunState option" where
  "mainLoop env strategyCapInfos i st =
     (if i < int (length strategyCapInfos)
      then mainLoop env strategyCapInfos
             (i + currentBatchSize (ctrl (processBatch env strategyCapInfos i st)))
             (processBatch env strategyCapInfos i st)
      else Some st)"

declare mainLoop.simps [code]

subsection \<open>The cleanup pass (lines 476 to 586)\<close>

text \<open>
  The loop over \<open>failedCapInfos\<close>, one record at a time, with the fixed wait of 1500 ms
  after every record but the last. The state is the accumulators, \<open>cleanupSuccesses\<close>
  and the effects of the pass.
\<close>

function cleanupLoop ::
  "Env \<Rightarrow> StrategyCapInfo list \<Rightarrow> nat \<Rightarrow> Accumulators \<times> nat \<times> effect list
     \<Rightarrow> Accumulators \<times> nat \<times> effect list" where
  "cleanupLoop env failedCapInfos i s =
     (if i < length failedCapInfos then
        (case s of (a, cleanupSuccesses, es) \<Rightarrow>
           (case fetchObligationCleanup env (failedCapInfos ! i) i 1 of
              (r, fes) \<Rightarrow>
                cleanupLoop env failedCapInfos (i + 1)
                  ((case r of Some d \<Rightarrow> pushObligation a d | None \<Rightarrow> a),
                   (case r of Some d \<Rightarrow> cleanupSuccesses + 1 | None \<Rightarrow> cleanupSuccesses),
                   es @ fes @ (if int i < int (length failedCapInfos) - 1
                               then [Sleep 1500] else []))))
      else s)"
  by pat_completeness auto
termination
  by (relation "measure (\<lambda>(env, failed, i, s). length failed - i)") auto

declare cleanupLoop.simps [simp del]

definition failedCapInfos :: "StrategyCapInfo list \<Rightarrow> ObligationSummary list \<Rightarrow> StrategyCapInfo list" where
  "failedCapInfos strategyCapInfos obs =
     filter (\<lambda>cap. obligationId cap \<notin> set (map obligationId obs)) strategyCapInfos"

definition initialFailedCount :: "StrategyCapInfo list \<Rightarrow> RunState \<Rightarrow> int" where
  "initialFailedCount strategyCapInfos st =
     int (length strategyCapInfos) - int (length (obligations (acc st)))"

definition cleanupPass :: "Env \<Rightarrow> StrategyCapInfo list \<Rightarrow> RunState \<Rightarrow> RunState" where
  "cleanupPass env strategyCapInfos st =
     (if initialFailedCount strategyCapInfos st > 0 then
        (case cleanupLoop env (failedCapInfos strategyCapInfos (obligations (acc st))) 0
                (acc st, 0, []) of
           (a, cleanupSuccesses, es) \<Rightarrow> st\<lparr>acc := a, effects := effects st @ es\<rparr>)
      else st)"

subsection \<open>The report (lines 589 to 661)\<close>

text \<open>
  \<open>obligations.sort((a, b) => b.deposited_value_usd - a.deposited_value_usd)\<close>.
  \<open>Array.prototype.sort\<close> is a stable sort by the comparator: an element goes before
  another when the comparator is negative, and equal elements keep their order. It is
  embedded as the stable insertion sort by that comparator.
\<close>

definition compareDeposits :: "ObligationSummary \<Rightarrow> ObligationSummary \<Rightarrow> real" where
  "compareDeposits a b = deposited_value_usd b - deposited_value_usd a"

fun insertBy :: "('a \<Rightarrow> 'a \<Rightarrow> real) \<Rightarrow> 'a \<Rightarrow> 'a list \<Rightarrow> 'a list" where
  "insertBy cmp x [] = [x]"
| "insertBy cmp x (y # ys) = (if cmp x y \<le> 0 then x # y # ys else y # insertBy cmp x ys)"

definition sortBy :: "('a \<Rightarrow> 'a \<Rightarrow> real) \<Rightarrow> 'a list \<Rightarrow> 'a list" where
  "sortBy cmp xs = foldr (insertBy cmp) xs []"

definition tvlSummary :: "Accumulators \<Rightarrow> TVLSummary" where
  "tvlSummary a =
     \<lparr>obligations = sortBy compareDeposits (obligations a),
      totalTVL = totalTVL a,
      totalDeposits = totalDeposits a,
      totalBorrows = totalBorrows a,
      strategyCount = int (length (obligations a))\<rparr>"

subsection \<open>The whole function\<close>

text \<open>
  How a call ends: through the outer \<open>catch\<close> (no report), through the early \<open>return\<close>
  of line 242 when no object resolved (no report), or with \<open>setTvlData(tvlSummary)\<close>.
\<close>

datatype outcome = ErrorCaught | NoCapsFound | Completed TVLSummary

definition fetchAndAggregate ::
  "Env \<Rightarrow> StrategyCapInfo list \<Rightarrow> (outcome \<times> effect list) option" where
  "fetchAndAggregate env strategyCapInfos =
     (case mainLoop env strategyCapInfos 0 initialState of
        None \<Rightarrow> None
      | Some st \<Rightarrow>
          Some (Completed (tvlSummary (acc (cleanupPass env strategyCapInfos st))),
                effects (cleanupPass env strategyCapInfos st)))"

definition resolvedCaps :: "Env \<Rightarrow> SuiEvent list \<Rightarrow> SuiObjectResponse list" where
  "resolvedCaps env allCreatedEvents =
     fst (resolveObjects env (extractCapIds allCreatedEvents) 0 ([], 0))"

definition calculateStrategyWrapperTVL :: "Env \<Rightarrow> (outcome \<times> effect list) option" where
  "calculateStrategyWrapperTVL env =
     (case fetchEventPages env True None 0 [] of
        None \<Rightarrow> Some (ErrorCaught, [])
      | Some allCreatedEvents \<Rightarrow>
          (if length (resolvedCaps env allCreatedEvents) = 0 then Some (NoCapsFound, [])
           else if \<not> initialize env then Some (ErrorCaught, [])
           else fetchAndAggregate env (extractCapInfos (resolvedCaps env allCreatedEvents))))"

text \<open>The React state \<open>tvlData\<close> after a call: only \<open>setTvlData\<close> changes it.\<close>

definition tvlDataAfter :: "TVLSummary option \<Rightarrow> outcome \<Rightarrow> TVLSummary option" where
  "tvlDataAfter tvlData out = (case out of Completed r \<Rightarrow> Some r | _ \<Rightarrow> tvlData)"

subsection \<open>Notions used in the statements\<close>

text \<open>The bounds the controller is meant to keep.\<close>

definition ctrl_bounds :: "BatchController \<Rightarrow> bool" where
  "ctrl_bounds c =
     (3 \<le> currentBatchSize c \<and> currentBatchSize c \<le> 20
      \<and> 100 \<le> currentDelay c \<and> currentDelay c \<le> 2000)"

text \<open>
  The loop heads of the main pass: \<open>loopReaches env caps i st\<close> holds when the \<open>for\<close>
  loop tests its condition with index \<open>i\<close> and variables \<open>st\<close> in the run over \<open>caps\<close>.
\<close>

inductive loopReaches :: "Env \<Rightarrow> StrategyCapInfo list \<Rightarrow> int \<Rightarrow> RunState \<Rightarrow> bool"
  for env :: Env and strategyCapInfos :: "StrategyCapInfo list" where
  start: "loopReaches env strategyCapInfos 0 initialState"
| iteration:
    "loopReaches env strategyCapInfos i st \<Longrightarrow> i < int (length strategyCapInfos) \<Longrightarrow>
     loopReaches env strategyCapInfos
       (i + currentBatchSize (ctrl (processBatch env strategyCapInfos i st)))
       (processBatch env strategyCapInfos i st)"

code_pred loopReaches .

text \<open>
  The batch of the iteration at \<open>i\<close>, its results, the two counts \<open>batchSuccesses\<close> and
  \<open>batchFailures\<close> of a list of results, and the branch the controller takes for it.
\<close>

definition batchAt :: "StrategyCapInfo list \<Rightarrow> int \<Rightarrow> RunState \<Rightarrow> StrategyCapInfo list" where
  "batchAt strategyCapInfos i st = slice strategyCapInfos i (i + currentBatchSize (ctrl st))"

definition batchResults ::
  "Env \<Rightarrow> StrategyCapInfo list \<Rightarrow> int \<Rightarrow> RunState \<Rightarrow> ObligationSummary option list" where
  "batchResults env strategyCapInfos i st = map fst (fetchBatch env i (batchAt strategyCapInfos i st))"

definition failureCount :: "ObligationSummary option list \<Rightarrow> nat" where
  "failureCount rs = snd (snd (tallyBatch (\<lparr>obligations = [], totalTVL = 0, totalDeposits = 0, totalBorrows = 0\<rparr>, 0, 0) rs))"

definition successCount :: "ObligationSummary option list \<Rightarrow> nat" where
  "successCount rs = fst (snd (tallyBatch (\<lparr>obligations = [], totalTVL = 0, totalDeposits = 0, totalBorrows = 0\<rparr>, 0, 0) rs))"

definition branchTaken :: "ObligationSummary option list \<Rightarrow> branch" where
  "branchTaken rs = selectBranch (length rs) (successCount rs) (failureCount rs)"

text \<open>
  The effects of \<open>k\<close> attempts on one record: a \<open>Fetch\<close> for each attempt \<open>1, ..., k\<close>
  and, between two attempts, a wait of the earlier attempt's number times \<open>unit\<close> ms.
\<close>

definition retrySchedule :: "(nat \<Rightarrow> fetch_call) \<Rightarrow> string \<Rightarrow> int \<Rightarrow> nat \<Rightarrow> effect list" where
  "retrySchedule call oid unit k =
     concat (map (\<lambda>a. [Fetch (call a) oid, Sleep (int a * unit)]) [1..<k]) @ [Fetch (call k) oid]"

text \<open>
  The number of attempts a record gets with a budget of \<open>budget\<close> attempts: the first
  attempt the service answers, or the whole budget when it answers none before the last.
\<close>

definition attemptsMade :: "Env \<Rightarrow> (nat \<Rightarrow> fetch_call) \<Rightarrow> string \<Rightarrow> nat \<Rightarrow> nat" where
  "attemptsMade env call oid budget =
     (case find (\<lambda>a. getObligation env (call a) oid \<noteq> None) [1..<budget] of
        Some a \<Rightarrow> a
      | None \<Rightarrow> budget)"

text \<open>
  What a record's fetch with a budget comes to: the summary built from the answer to the
  last attempt made (none when that attempt fails too), and the effects of the attempts
  made with the waits between them.
\<close>

definition retryResult ::
  "Env \<Rightarrow> (nat \<Rightarrow> fetch_call) \<Rightarrow> StrategyCapInfo \<Rightarrow> nat \<Rightarrow> ObligationSummary option" where
  "retryResult env call capInfo budget =
     map_option (obligationData capInfo)
       (getObligation env (call (attemptsMade env call (obligationId capInfo) budget))
          (obligationId capInfo))"

definition recordEffects ::
  "Env \<Rightarrow> (nat \<Rightarrow> fetch_call) \<Rightarrow> StrategyCapInfo \<Rightarrow> int \<Rightarrow> nat \<Rightarrow> effect list" where
  "recordEffects env call capInfo unit budget =
     retrySchedule call (obligationId capInfo) unit
       (attemptsMade env call (obligationId capInfo) budget)"

text \<open>
  The main pass on the batch cut at \<open>i\<close>: every record of the batch, with its global
  index, gets a budget of 3 attempts and waits in units of 1000 ms.
\<close>

definition mainPassResults ::
  "Env \<Rightarrow> int \<Rightarrow> StrategyCapInfo list \<Rightarrow> ObligationSummary option list" where
  "mainPassResults env i batch =
     map (\<lambda>(capInfo, batchIndex). retryResult env (MainFetch i (i + int batchIndex)) capInfo 3)
         (zip batch [0..<length batch])"

definition mainPassEffects :: "Env \<Rightarrow> int \<Rightarrow> StrategyCapInfo list \<Rightarrow> effect list" where
  "mainPassEffects env i batch =
     concat (map (\<lambda>(capInfo, batchIndex).
                    recordEffects env (MainFetch i (i + int batchIndex)) capInfo 1000 3)
                 (zip batch [0..<length batch]))"

text \<open>
  The cleanup pass over the failed records: the record at index \<open>k\<close> gets a budget of 5
  attempts and waits in units of 2000 ms, and 1500 ms pass after every record but the last.
\<close>

definition cleanupResults :: "Env \<Rightarrow> StrategyCapInfo list \<Rightarrow> ObligationSummary option list" where
  "cleanupResults env failed =
     map (\<lambda>k. retryResult env (CleanupFetch k) (failed ! k) 5) [0..<length failed]"

definition cleanupEffects :: "Env \<Rightarrow> StrategyCapInfo list \<Rightarrow> effect list" where
  "cleanupEffects env failed =
     concat (map (\<lambda>k. recordEffects env (CleanupFetch k) (failed ! k) 2000 5
                        @ (if int k < int (length failed) - 1 then [Sleep 1500] else []))
                 [0..<length failed])"

text \<open>The summaries among a list of results, in order.\<close>

definition summariesOf :: "ObligationSummary option list \<Rightarrow> ObligationSummary list" where
  "summariesOf rs = List.map_filter (\<lambda>r. r) rs"

definition isCleanupFetch :: "effect \<Rightarrow> bool" where
  "isCleanupFetch e = (case e of Fetch (CleanupFetch i a) oid \<Rightarrow> True | _ \<Rightarrow> False)"

definition reportOf :: "(outcome \<times> effect list) option \<Rightarrow> TVLSummary option" where
  "reportOf res = (case res of Some (Completed r, es) \<Rightarrow> Some r | _ \<Rightarrow> None)"

definition sortedByDepositsDesc :: "ObligationSummary list \<Rightarrow> bool" where
  "sortedByDepositsDesc xs =
     sorted_wrt (\<lambda>a b. deposited_value_usd a \<ge> deposited_value_usd b) xs"

subsection \<open>Concrete runs\<close>

text \<open>
  A chain with \<open>n\<close> capability objects, each with a populated inner capability, found
  on one page of events; every obligation has 1 USD of deposits (\<open>10^18\<close> raw) and no
  borrows; the position service throws exactly at the calls in \<open>failing\<close>.
\<close>

definition demoId :: "nat \<Rightarrow> string" where
  "demoId k = ''0x'' @ replicate k (CHR ''1'')"

definition demoObject :: "string \<Rightarrow> SuiObjectResponse" where
  "demoObject capId =
     \<lparr>obj_data = Some \<lparr>obj_objectId = capId,
                        obj_content = Some (MoveObject \<lparr>inner_cap = Some (Some (''ob'' @ capId)),
                                                         strategy_type = 1\<rparr>),
                        obj_owner = Some (AddressOwner ''0xabc'')\<rparr>,
      obj_error = None\<rparr>"

definition demoEnvWith :: "nat \<Rightarrow> (fetch_call \<Rightarrow> bool) \<Rightarrow> (string \<Rightarrow> int) \<Rightarrow> Env" where
  "demoEnvWith n failing deposit =
     \<lparr>queryEvents = (\<lambda>cursor. Some \<lparr>data = map (\<lambda>k. \<lparr>parsedJson = Some \<lparr>cap_id = Some (demoId k)\<rparr>\<rparr>) [0..<n],
                                     hasNextPage = False, nextCursor = None\<rparr>),
      getObject = (\<lambda>capId. Some (demoObject capId)),
      initialize = True,
      getObligation = (\<lambda>c oid. if failing c then None
                                else Some \<lparr>depositedValueUsd = Some (deposit oid),
                                           unweightedBorrowedValueUsd = None\<rparr>)\<rparr>"

definition demoEnv :: "nat \<Rightarrow> (fetch_call \<Rightarrow> bool) \<Rightarrow> Env" where
  "demoEnv n failing = demoEnvWith n failing (\<lambda>oid. 10 ^ 18)"

text \<open>Deposits that grow with the length of the obligation identifier: 4, 5, 6, ... USD.\<close>

definition gradedDeposit :: "string \<Rightarrow> int" where
  "gradedDeposit oid = int (length oid) * 10 ^ 18"

definition demoCaps :: "nat \<Rightarrow> StrategyCapInfo list" where
  "demoCaps n =
     map (\<lambda>k. \<lparr>objectId = demoId k, obligationId = ''ob'' @ demoId k, strategyType = 1,
               owner = ''0xabc''\<rparr>) [0..<n]"

fun neverFails :: "fetch_call \<Rightarrow> bool" where
  "neverFails c = False"

fun alwaysFails :: "fetch_call \<Rightarrow> bool" where
  "alwaysFails c = True"

text \<open>
  The first record fails in every attempt of the main pass, and every record fails its
  first attempt of the cleanup pass.
\<close>

fun failsUntilSecondCleanupAttempt :: "fetch_call \<Rightarrow> bool" where
  "failsUntilSecondCleanupAttempt (MainFetch i g a) = (g = 0)"
| "failsUntilSecondCleanupAttempt (CleanupFetch k a) = (a = 1)"

text \<open>The first record fails in every attempt of the main pass.\<close>

fun firstRecordFails :: "fetch_call \<Rightarrow> bool" where
  "firstRecordFails (MainFetch i g a) = (g = 0)"
| "firstRecordFails (CleanupFetch i a) = False"

text \<open>The record with index 15 fails in every attempt of the main pass.\<close>

fun sixteenthRecordFails :: "fetch_call \<Rightarrow> bool" where
  "sixteenthRecordFails (MainFetch i g a) = (g = 15)"
| "sixteenthRecordFails (CleanupFetch i a) = False"

text \<open>
  Four records fail in the batch at index 0 and one record fails in the batch at index 30,
  in every attempt of the main pass.
\<close>

fun fourThenOneFail :: "fetch_call \<Rightarrow> bool" where
  "fourThenOneFail (MainFetch i g a) = ((i = 0 \<and> g < 4) \<or> (i = 30 \<and> g = 30))"
| "fourThenOneFail (CleanupFetch i a) = False"

text \<open>The report of the run over three records with graded deposits and no failure.\<close>

definition gradedReport :: TVLSummary where
  "gradedReport =
     \<lparr>obligations =
        [obligationData (demoCaps 3 ! 2)
           \<lparr>depositedValueUsd = Some (6 * 10 ^ 18), unweightedBorrowedValueUsd = None\<rparr>,
         obligationData (demoCaps 3 ! 1)
           \<lparr>depositedValueUsd = Some (5 * 10 ^ 18), unweightedBorrowedValueUsd = None\<rparr>,
         obligationData (demoCaps 3 ! 0)
           \<lparr>depositedValueUsd = Some (4 * 10 ^ 18), unweightedBorrowedValueUsd = None\<rparr>],
      totalTVL = 15, totalDeposits = 15, totalBorrows = 0, strategyCount = 3\<rparr>"

text \<open>
  Controller states along two sequences of batches, each given as batch length, successes
  and failures. Both start with a batch of 15 with 4 failures (aggressive slowdown, into
  recovery mode) and two clean batches of 10.
\<close>

definition afterTwoCleanInRecovery :: BatchController where
  "afterTwoCleanInRecovery =
     adaptController (adaptController (adaptController initialController 15 11 4) 10 10 0) 10 10 0"

text \<open>A third clean batch of 10 follows.\<close>

definition afterThirdClean :: BatchController where
  "afterThirdClean = adaptController afterTwoCleanInRecovery 10 10 0"

text \<open>Instead, a batch of 10 with one failure follows.\<close>

definition afterCautiousInRecovery :: BatchController where
  "afterCautiousInRecovery = adaptController afterTwoCleanInRecovery 10 9 1"

section \<open>Properties\<close>

subsection \<open>The controller and the main loop\<close>

lemma adaptController_bounds:
  "ctrl_bounds c \<Longrightarrow> ctrl_bounds (adaptController c n s f)"
  by (cases "selectBranch n s f")
     (auto simp: adaptController_def ctrl_bounds_def speedUp_def exitRecovery_def)

lemma tallyBatch_acc_irrelevant:
  "snd (tallyBatch (a, s, f) rs) = snd (tallyBatch (b, s, f) rs)"
proof (induction rs arbitrary: a b s f)
  case Nil
  show ?case by simp
next
  case (Cons r rs)
  show ?case
  proof (cases r)
    case None
    then show ?thesis using Cons.IH[of a s "f + 1" b] by simp
  next
    case (Some d)
    then show ?thesis using Cons.IH[of "pushObligation a d" "s + 1" f "pushObligation b d"] by simp
  qed
qed

lemma tallyBatch_counts:
  "fst (snd (tallyBatch (a, s, f) rs)) = s + length (filter (\<lambda>r. r \<noteq> None) rs)
   \<and> snd (snd (tallyBatch (a, s, f) rs)) = f + length (filter (\<lambda>r. r = None) rs)"
proof (induction rs arbitrary: a s f)
  case Nil
  show ?case by simp
next
  case (Cons r rs)
  show ?case
  proof (cases r)
    case None
    then show ?thesis using Cons.IH[of a s "f + 1"] by simp
  next
    case (Some d)
    then show ?thesis using Cons.IH[of "pushObligation a d" "s + 1" f] by simp
  qed
qed

lemma successCount_eq: "successCount rs = length (filter (\<lambda>r. r \<noteq> None) rs)"
  using tallyBatch_counts[of _ 0 0 rs] by (simp add: successCount_def)

lemma failureCount_eq: "failureCount rs = length (filter (\<lambda>r. r = None) rs)"
  using tallyBatch_counts[of _ 0 0 rs] by (simp add: failureCount_def)

lemma successes_plus_failures: "successCount rs + failureCount rs = length rs"
  unfolding successCount_eq failureCount_eq
  using sum_length_filter_compl[of "\<lambda>r. r \<noteq> None" rs] by simp

lemma ctrl_processBatch:
  "ctrl (processBatch env caps i st) =
     adaptController (ctrl st) (length (batchResults env caps i st))
       (successCount (batchResults env caps i st))
       (failureCount (batchResults env caps i st))"
proof -
  let ?e = "\<lparr>obligations = [], totalTVL = 0, totalDeposits = 0, totalBorrows = 0\<rparr>"
  let ?rs = "batchResults env caps i st"
  have "snd (tallyBatch (acc st, 0, 0) ?rs) = snd (tallyBatch (?e, 0, 0) ?rs)"
    by (rule tallyBatch_acc_irrelevant)
  moreover have "length ?rs = length (batchAt caps i st)"
    by (simp add: batchResults_def fetchBatch_def)
  ultimately show ?thesis
    by (simp add: processBatch_def Let_def batchResults_def batchAt_def
        successCount_def failureCount_def)
qed

lemma processBatch_bounds:
  "ctrl_bounds (ctrl st) \<Longrightarrow> ctrl_bounds (ctrl (processBatch env caps i st))"
  by (simp only: ctrl_processBatch adaptController_bounds)

lemma mainLoop_invariant:
  assumes "I i st"
    and step: "\<And>i st. I i st \<Longrightarrow> i < int (length caps) \<Longrightarrow>
                 I (i + currentBatchSize (ctrl (processBatch env caps i st))) (processBatch env caps i st)"
    and pos: "\<And>i st. I i st \<Longrightarrow> i < int (length caps) \<Longrightarrow> 0 < currentBatchSize (ctrl (processBatch env caps i st))"
  shows "\<exists>j st'. mainLoop env caps i st = Some st' \<and> I j st' \<and> \<not> j < int (length caps)"
  using assms(1)
proof (induction "nat (int (length caps) - i)" arbitrary: i st rule: less_induct)
  case less
  show ?case
  proof (cases "i < int (length caps)")
    case False
    then have "mainLoop env caps i st = Some st"
      by (subst mainLoop.simps) simp
    with False less.prems show ?thesis by blast
  next
    case True
    let ?st = "processBatch env caps i st"
    let ?i = "i + currentBatchSize (ctrl ?st)"
    have "nat (int (length caps) - ?i) < nat (int (length caps) - i)"
      using pos[OF less.prems True] True by linarith
    moreover have "I ?i ?st" by (rule step[OF less.prems True])
    ultimately obtain j st' where "mainLoop env caps ?i ?st = Some st'" "I j st'" "\<not> j < int (length caps)"
      using less.hyps by blast
    moreover have "mainLoop env caps i st = mainLoop env caps ?i ?st"
      using True by (subst mainLoop.simps) simp
    ultimately show ?thesis by auto
  qed
qed

lemma loopReaches_bounds: "loopReaches env caps i st \<Longrightarrow> ctrl_bounds (ctrl st)"
proof (induction rule: loopReaches.induct)
  case start
  show ?case by (simp add: initialState_def initialController_def ctrl_bounds_def)
next
  case (iteration i st)
  then show ?case by (simp add: processBatch_bounds)
qed

lemma loopReaches_index_nonneg: "loopReaches env caps i st \<Longrightarrow> 0 \<le> i"
proof (induction rule: loopReaches.induct)
  case start
  show ?case by simp
next
  case (iteration i st)
  have "ctrl_bounds (ctrl (processBatch env caps i st))"
    using iteration.hyps(1) loopReaches_bounds processBatch_bounds by blast
  then show ?case using iteration.IH by (simp add: ctrl_bounds_def)
qed

lemma mainLoop_reaches:
  "\<exists>j st'. mainLoop env caps 0 initialState = Some st' \<and> loopReaches env caps j st' \<and> \<not> j < int (length caps)"
proof (rule mainLoop_invariant[where I = "loopReaches env caps"])
  show "loopReaches env caps 0 initialState" by (rule loopReaches.start)
next
  fix i st assume "loopReaches env caps i st" "i < int (length caps)"
  then show "loopReaches env caps (i + currentBatchSize (ctrl (processBatch env caps i st))) (processBatch env caps i st)"
    by (rule loopReaches.iteration)
next
  fix i st assume "loopReaches env caps i st" "i < int (length caps)"
  then have "ctrl_bounds (ctrl (processBatch env caps i st))"
    using loopReaches_bounds processBatch_bounds by blast
  then show "0 < currentBatchSize (ctrl (processBatch env caps i st))"
    by (simp add: ctrl_bounds_def)
qed

lemma slice_nonempty:
  "0 \<le> i \<Longrightarrow> i < int (length xs) \<Longrightarrow> 0 < b \<Longrightarrow> slice xs i (i + b) \<noteq> []"
  by (auto simp: slice_def Let_def min_def)

lemma batchAt_nonempty:
  assumes "loopReaches env caps i st" "i < int (length caps)"
  shows "batchAt caps i st \<noteq> []"
proof -
  have "0 \<le> i" using assms(1) by (rule loopReaches_index_nonneg)
  moreover have "0 < currentBatchSize (ctrl st)"
    using loopReaches_bounds[OF assms(1)] by (simp add: ctrl_bounds_def)
  ultimately show ?thesis using assms(2) by (simp add: batchAt_def slice_nonempty)
qed

lemma zero_failures_rate:
  assumes "rs \<noteq> []" "failureCount rs = 0"
  shows "batchSuccessRate (successCount rs) (length rs) = Num 100"
proof -
  have "successCount rs = length rs" using successes_plus_failures[of rs] assms(2) by simp
  moreover have "length rs \<noteq> 0" using assms(1) by simp
  ultimately show ?thesis by (simp add: batchSuccessRate_def)
qed

lemma zero_failures_branch:
  assumes "rs \<noteq> []" "failureCount rs = 0"
  shows "branchTaken rs = NearPerfect"
  using zero_failures_rate[OF assms] assms(2) by (simp add: branchTaken_def selectBranch_def)

lemma some_failures_branch:
  assumes "failureCount rs \<noteq> 0"
  shows "branchTaken rs = AggressiveSlowdown \<or> branchTaken rs = CautiousAdjustment"
  using assms by (simp add: branchTaken_def selectBranch_def)

text \<open>
  What the aggressive branch does, under the test the code makes: at least one failure,
  and more failures than the 20 % of the batch length rounded up, or a rate below 70 %.
\<close>

lemma aggressive_slowdown_effect:
  assumes "0 < f" and "hasSignificantFailures f n \<or> js_lt (batchSuccessRate s n) 70"
  shows "adaptController c n s f =
           c\<lparr>lastFailureCount := f,
             failureRecoveryMode := True,
             consecutiveFailures := consecutiveFailures c + 1,
             consecutiveSuccesses := 0,
             currentBatchSize := max (currentBatchSize c - 5) 3,
             currentDelay := min (currentDelay c + 400) 2000\<rparr>"
proof -
  have "selectBranch n s f = AggressiveSlowdown"
    using assms by (auto simp: selectBranch_def)
  then show ?thesis by (simp add: adaptController_def)
qed

text \<open>
  Recovery mode is kept by every batch that starts with fewer than two counted successes,
  so the two batches that follow the entry into recovery mode never leave it.
\<close>

lemma recovery_kept_below_two:
  assumes "failureRecoveryMode c" and "consecutiveSuccesses c < 2"
  shows "failureRecoveryMode (adaptController c n s f)"
  using assms
  by (cases "selectBranch n s f")
     (auto simp: adaptController_def speedUp_def exitRecovery_def)

lemma consecutiveSuccesses_step:
  "consecutiveSuccesses (adaptController c n s f) \<le> consecutiveSuccesses c + 1"
  by (cases "selectBranch n s f")
     (auto simp: adaptController_def speedUp_def exitRecovery_def)

lemma recovery_kept_two_batches_after_entry:
  assumes "selectBranch n0 s0 f0 = AggressiveSlowdown"
  shows "failureRecoveryMode
           (adaptController (adaptController (adaptController c n0 s0 f0) n1 s1 f1) n2 s2 f2)"
proof -
  let ?c0 = "adaptController c n0 s0 f0"
  have e: "failureRecoveryMode ?c0 \<and> consecutiveSuccesses ?c0 = 0"
    using assms by (simp add: adaptController_def)
  then have "failureRecoveryMode (adaptController ?c0 n1 s1 f1)"
    by (simp add: recovery_kept_below_two)
  moreover have "consecutiveSuccesses (adaptController ?c0 n1 s1 f1) < 2"
    using consecutiveSuccesses_step[of ?c0 n1 s1 f1] e by simp
  ultimately show ?thesis by (rule recovery_kept_below_two)
qed

subsection \<open>Zero-failure batches\<close>

text \<open>
  C10. In every non-empty batch, zero failures give a batch success rate of exactly 100 %
  and the controller takes the branch for a rate of at least 95 %; no non-empty batch
  takes the branch for a rate in [90 %, 95 %) or the final branch for a rate below 90 %.
  Every batch of the main pass is a non-empty slice, so in no iteration of the main pass
  does the controller take one of these two branches.
\<close>

theorem C10_zero_failures_take_near_perfect_branch:
  "(rs \<noteq> [] \<and> failureCount rs = 0 \<longrightarrow>
      batchSuccessRate (successCount rs) (length rs) = Num 100 \<and> branchTaken rs = NearPerfect)
   \<and> (rs \<noteq> [] \<longrightarrow> branchTaken rs \<noteq> GoodRate \<and> branchTaken rs \<noteq> ModerateRate)
   \<and> (loopReaches env caps i st \<and> i < int (length caps) \<longrightarrow>
        batchAt caps i st \<noteq> [] \<and> batchResults env caps i st \<noteq> []
        \<and> branchTaken (batchResults env caps i st) \<noteq> GoodRate
        \<and> branchTaken (batchResults env caps i st) \<noteq> ModerateRate
        \<and> ctrl (processBatch env caps i st)
            = adaptController (ctrl st) (length (batchResults env caps i st))
                (successCount (batchResults env caps i st))
                (failureCount (batchResults env caps i st)))"
proof -
  have a: "rs \<noteq> [] \<Longrightarrow> branchTaken rs \<noteq> GoodRate \<and> branchTaken rs \<noteq> ModerateRate" for rs
    using zero_failures_branch[of rs] some_failures_branch[of rs]
    by (cases "failureCount rs = 0") auto
  have b: "batchResults env caps i st \<noteq> []" if "loopReaches env caps i st" "i < int (length caps)"
    using batchAt_nonempty[OF that] by (simp add: batchResults_def fetchBatch_def)
  show ?thesis
    using zero_failures_rate[of rs] zero_failures_branch[of rs] a[of rs]
      a[OF b] b batchAt_nonempty[of env caps i st] ctrl_processBatch[of env caps i st]
    by blast
qed

theorem C10_zero_failures_take_near_perfect_branch_witness:
  "batchResults (demoEnv 15 firstRecordFails) (demoCaps 15) 13
     (processBatch (demoEnv 15 firstRecordFails) (demoCaps 15) 0 initialState) \<noteq> []
   \<and> failureCount (batchResults (demoEnv 15 firstRecordFails) (demoCaps 15) 13
        (processBatch (demoEnv 15 firstRecordFails) (demoCaps 15) 0 initialState)) = 0
   \<and> branchTaken (batchResults (demoEnv 15 firstRecordFails) (demoCaps 15) 13
        (processBatch (demoEnv 15 firstRecordFails) (demoCaps 15) 0 initialState)) = NearPerfect
   \<and> loopReaches (demoEnv 15 firstRecordFails) (demoCaps 15) 13
        (processBatch (demoEnv 15 firstRecordFails) (demoCaps 15) 0 initialState)
   \<and> (13::int) < int (length (demoCaps 15))
   \<and> length (batchAt (demoCaps 15) 13
        (processBatch (demoEnv 15 firstRecordFails) (demoCaps 15) 0 initialState)) = 2"
proof -
  let ?E = "demoEnv 15 firstRecordFails"
  let ?C = "demoCaps 15"
  let ?st = "processBatch ?E ?C 0 initialState"
  let ?rs = "batchResults ?E ?C 13 ?st"
  have s: "currentBatchSize (ctrl ?st) = 13" by code_simp
  have "loopReaches ?E ?C (0 + currentBatchSize (ctrl ?st)) ?st"
    by (rule loopReaches.iteration[OF loopReaches.start]) (simp add: demoCaps_def)
  then have r: "loopReaches ?E ?C 13 ?st" using s by simp
  have l: "(13::int) < int (length ?C)" by (simp add: demoCaps_def)
  have f: "failureCount ?rs = 0" by code_simp
  have b: "length (batchAt ?C 13 ?st) = 2" by code_simp
  show ?thesis
    using f r l b
      C10_zero_failures_take_near_perfect_branch[of ?rs ?E ?C 13 ?st]
    by simp
qed

subsection \<open>Bounds of the controller\<close>

text \<open>
  C7. The controller starts with batch size 15 and delay 300 ms, within the bounds
  3 \<le> batchSize \<le> 20 and 100 \<le> delayMs \<le> 2000; every transition of the controller
  (aggressive slowdown, cautious adjustment, speed-up and the others) keeps the bounds;
  so they hold at every loop head of every run of the main pass, and the main pass of
  every run ends in a state that satisfies them.
\<close>

theorem C7_controller_bounds:
  "ctrl_bounds initialController
   \<and> currentBatchSize initialController = 15 \<and> currentDelay initialController = 300
   \<and> (ctrl_bounds c \<longrightarrow> ctrl_bounds (adaptController c n s f))
   \<and> (loopReaches env caps i st \<longrightarrow> ctrl_bounds (ctrl st))
   \<and> (\<exists>j st'. mainLoop env caps 0 initialState = Some st' \<and> loopReaches env caps j st'
                \<and> ctrl_bounds (ctrl st'))"
proof -
  have "ctrl_bounds initialController"
    by (simp add: initialController_def ctrl_bounds_def)
  moreover have "currentBatchSize initialController = 15 \<and> currentDelay initialController = 300"
    by (simp add: initialController_def)
  moreover obtain j st' where "mainLoop env caps 0 initialState = Some st'" "loopReaches env caps j st'"
    using mainLoop_reaches[of env caps] by blast
  ultimately show ?thesis
    using adaptController_bounds[of c n s f] loopReaches_bounds by blast
qed

theorem C7_controller_bounds_witness:
  "ctrl_bounds initialController
   \<and> ctrl_bounds (adaptController initialController 15 11 4)
   \<and> currentBatchSize (adaptController initialController 15 11 4) = 10
   \<and> currentDelay (adaptController initialController 15 11 4) = 700
   \<and> loopReaches (demoEnv 15 firstRecordFails) (demoCaps 15) 13
        (processBatch (demoEnv 15 firstRecordFails) (demoCaps 15) 0 initialState)
   \<and> ctrl_bounds (ctrl (processBatch (demoEnv 15 firstRecordFails) (demoCaps 15) 0 initialState))
   \<and> currentBatchSize
        (ctrl (processBatch (demoEnv 15 firstRecordFails) (demoCaps 15) 0 initialState)) = 13"
proof -
  let ?E = "demoEnv 15 firstRecordFails"
  let ?C = "demoCaps 15"
  let ?st = "processBatch ?E ?C 0 initialState"
  have s: "currentBatchSize (ctrl ?st) = 13" by code_simp
  have a: "currentBatchSize (adaptController initialController 15 11 4) = 10
           \<and> currentDelay (adaptController initialController 15 11 4) = 700"
    by code_simp
  have "loopReaches ?E ?C (0 + currentBatchSize (ctrl ?st)) ?st"
    by (rule loopReaches.iteration[OF loopReaches.start]) (simp add: demoCaps_def)
  then have r: "loopReaches ?E ?C 13 ?st" using s by simp
  show ?thesis
    using r s a C7_controller_bounds[of initialController 15 11 4 ?E ?C 13 ?st]
    by simp
qed

subsection \<open>The report\<close>

lemma set_insertBy: "set (insertBy cmp x ys) = insert x (set ys)"
  by (induction ys) auto

lemma length_insertBy: "length (insertBy cmp x ys) = Suc (length ys)"
  by (induction ys) auto

lemma length_sortBy: "length (sortBy cmp xs) = length xs"
  by (induction xs) (simp_all add: sortBy_def length_insertBy)

lemma sorted_insertBy:
  "sortedByDepositsDesc ys \<Longrightarrow> sortedByDepositsDesc (insertBy compareDeposits x ys)"
proof (induction ys)
  case Nil
  show ?case by (simp add: sortedByDepositsDesc_def)
next
  case (Cons y ys)
  show ?case
  proof (cases "compareDeposits x y \<le> 0")
    case True
    then have "deposited_value_usd y \<le> deposited_value_usd x"
      by (simp add: compareDeposits_def)
    with True Cons.prems show ?thesis
      by (auto simp: sortedByDepositsDesc_def)
  next
    case False
    then have "deposited_value_usd x \<le> deposited_value_usd y"
      by (simp add: compareDeposits_def)
    moreover have "sortedByDepositsDesc (insertBy compareDeposits x ys)"
      using Cons by (simp add: sortedByDepositsDesc_def)
    ultimately show ?thesis
      using False Cons.prems by (auto simp: sortedByDepositsDesc_def set_insertBy)
  qed
qed

lemma sorted_sortBy: "sortedByDepositsDesc (sortBy compareDeposits xs)"
proof (induction xs)
  case Nil
  show ?case by (simp add: sortBy_def sortedByDepositsDesc_def)
next
  case (Cons x xs)
  then show ?case using sorted_insertBy[of "sortBy compareDeposits xs" x]
    by (simp add: sortBy_def)
qed

lemma completed_report:
  assumes "calculateStrategyWrapperTVL env = Some (Completed r, es)"
  shows "\<exists>a. r = tvlSummary a"
proof -
  from assms obtain evs where
    e: "fetchAndAggregate env (extractCapInfos (resolvedCaps env evs)) = Some (Completed r, es)"
    by (auto simp: calculateStrategyWrapperTVL_def split: option.splits if_splits)
  then show ?thesis
    by (auto simp: fetchAndAggregate_def split: option.splits)
qed

text \<open>The count of the report is the length of its list, in every run that reports.\<close>

lemma strategyCount_is_length:
  assumes "calculateStrategyWrapperTVL env = Some (Completed r, es)"
  shows "strategyCount r = int (length (obligations r))"
proof -
  obtain a where "r = tvlSummary a" using completed_report[OF assms] by blast
  then show ?thesis by (simp add: tvlSummary_def length_sortBy)
qed

text \<open>
  C9. In every report the list of positions is sorted by deposited value in descending
  order: every adjacent pair has the larger or equal deposit first. (Deposits are compared
  as exact numbers; the comparator of the code subtracts them.)
\<close>

theorem C9_positions_sorted_descending:
  assumes "calculateStrategyWrapperTVL env = Some (Completed r, es)"
  shows "sortedByDepositsDesc (obligations r)
         \<and> (\<forall>k. Suc k < length (obligations r) \<longrightarrow>
               deposited_value_usd (obligations r ! k)
                 \<ge> deposited_value_usd (obligations r ! Suc k))"
proof -
  obtain a where "r = tvlSummary a" using completed_report[OF assms] by blast
  then have s: "sortedByDepositsDesc (obligations r)"
    by (simp add: tvlSummary_def sorted_sortBy)
  then have "\<forall>k. Suc k < length (obligations r) \<longrightarrow>
               deposited_value_usd (obligations r ! k)
                 \<ge> deposited_value_usd (obligations r ! Suc k)"
    by (simp add: sortedByDepositsDesc_def sorted_wrt_iff_nth_less)
  with s show ?thesis by blast
qed

lemma graded_run:
  "calculateStrategyWrapperTVL (demoEnvWith 3 neverFails gradedDeposit)
     = Some (Completed gradedReport,
             [Fetch (MainFetch 0 0 1) ''ob0x'', Fetch (MainFetch 0 1 1) ''ob0x1'',
              Fetch (MainFetch 0 2 1) ''ob0x11''])"
  by code_simp

theorem C9_positions_sorted_descending_witness:
  "calculateStrategyWrapperTVL (demoEnvWith 3 neverFails gradedDeposit)
     = Some (Completed gradedReport,
             [Fetch (MainFetch 0 0 1) ''ob0x'', Fetch (MainFetch 0 1 1) ''ob0x1'',
              Fetch (MainFetch 0 2 1) ''ob0x11''])
   \<and> sortedByDepositsDesc (obligations gradedReport)
   \<and> map deposited_value_usd (obligations gradedReport) = [6, 5, 4]"
proof -
  have "map deposited_value_usd (obligations gradedReport) = [6, 5, 4]"
    by (simp add: gradedReport_def obligationData_def usdValue_def)
  then show ?thesis
    using graded_run C9_positions_sorted_descending[OF graded_run] by simp
qed

subsection \<open>Runs that find no capability object\<close>

lemma resolvedCaps_no_events: "resolvedCaps env [] = []"
  by (simp add: resolvedCaps_def resolveObjects.simps)

text \<open>
  C3, as the code has it. When no capability object resolves (in particular when the
  paginator returns no event), the function returns at line 242 before extraction: it
  builds no report, leaves \<open>tvlData\<close> as it was, and runs neither the main pass nor
  the cleanup pass (no call to the position service, no wait).
\<close>

theorem C3_no_resolved_object_no_report:
  assumes "fetchEventPages env True None 0 [] = Some evs"
    and "evs = [] \<or> resolvedCaps env evs = []"
  shows "calculateStrategyWrapperTVL env = Some (NoCapsFound, [])
         \<and> reportOf (calculateStrategyWrapperTVL env) = None
         \<and> tvlDataAfter tvlData NoCapsFound = tvlData"
proof -
  have "resolvedCaps env evs = []" using assms(2) resolvedCaps_no_events by auto
  then show ?thesis using assms(1)
    by (simp add: calculateStrategyWrapperTVL_def reportOf_def tvlDataAfter_def)
qed

lemma no_events_pages: "fetchEventPages (demoEnv 0 neverFails) True None 0 [] = Some []"
  by code_simp

theorem C3_no_resolved_object_no_report_witness:
  "fetchEventPages (demoEnv 0 neverFails) True None 0 [] = Some []
   \<and> calculateStrategyWrapperTVL (demoEnv 0 neverFails) = Some (NoCapsFound, [])
   \<and> tvlDataAfter (Some gradedReport) NoCapsFound = Some gradedReport"
  using no_events_pages
    C3_no_resolved_object_no_report[OF no_events_pages, of "Some gradedReport"]
  by simp

text \<open>
  The specification expects a report with \<open>positionCount = 0\<close> and \<open>totalTVL = 0\<close>
  here; the run that finds no event produces no report.
\<close>

theorem C3_zero_events_counterexample:
  "reportOf (calculateStrategyWrapperTVL (demoEnv 0 neverFails)) = None"
  by code_simp

lemma pipeline_completes:
  assumes "fetchEventPages env True None 0 [] = Some evs"
    and "resolvedCaps env evs \<noteq> []" and "initialize env"
  shows "\<exists>r es. calculateStrategyWrapperTVL env = Some (Completed r, es)"
proof -
  obtain j st where "mainLoop env (extractCapInfos (resolvedCaps env evs)) 0 initialState = Some st"
    using mainLoop_reaches by blast
  then show ?thesis using assms
    by (simp add: calculateStrategyWrapperTVL_def fetchAndAggregate_def)
qed

subsection \<open>Speeding up\<close>

text \<open>
  C6, as the code has it. A batch with zero failures and a success rate of at least 95 %
  that occurs while not in recovery mode increments \<open>consecutiveSuccesses\<close> and stays out
  of recovery mode. It increases the batch size by 3 (capped at 20) and decreases the
  delay by 100 ms (floored at 100) when the counter was at least 1 before the batch, and
  leaves size and delay unchanged when the counter was 0 before it. Hence the second and
  each later batch of a consecutive sequence of such batches speeds up.
\<close>

theorem C6_speed_up_when_streak_continues:
  assumes "\<not> failureRecoveryMode c" and "js_ge (batchSuccessRate s n) 95"
  shows "consecutiveSuccesses (adaptController c n s 0) = consecutiveSuccesses c + 1
     \<and> \<not> failureRecoveryMode (adaptController c n s 0)
     \<and> (consecutiveSuccesses c \<ge> 1 \<longrightarrow>
          currentBatchSize (adaptController c n s 0) = min (currentBatchSize c + 3) 20
          \<and> currentDelay (adaptController c n s 0) = max (currentDelay c - 100) 100)
     \<and> (consecutiveSuccesses c = 0 \<longrightarrow>
          currentBatchSize (adaptController c n s 0) = currentBatchSize c
          \<and> currentDelay (adaptController c n s 0) = currentDelay c)
     \<and> (js_ge (batchSuccessRate s2 n2) 95 \<longrightarrow>
          currentBatchSize (adaptController (adaptController c n s 0) n2 s2 0)
            = min (currentBatchSize (adaptController c n s 0) + 3) 20
          \<and> currentDelay (adaptController (adaptController c n s 0) n2 s2 0)
            = max (currentDelay (adaptController c n s 0) - 100) 100)"
proof -
  have b: "selectBranch n s 0 = NearPerfect" using assms(2) by (simp add: selectBranch_def)
  have b2: "js_ge (batchSuccessRate s2 n2) 95 \<Longrightarrow> selectBranch n2 s2 0 = NearPerfect"
    by (simp add: selectBranch_def)
  show ?thesis using assms(1) b b2
    by (auto simp: adaptController_def speedUp_def exitRecovery_def)
qed

theorem C6_speed_up_when_streak_continues_witness:
  "\<not> failureRecoveryMode initialController
   \<and> js_ge (batchSuccessRate 15 15) 95
   \<and> consecutiveSuccesses initialController = 0
   \<and> currentBatchSize (adaptController initialController 15 15 0) = 15
   \<and> currentDelay (adaptController initialController 15 15 0) = 300
   \<and> consecutiveSuccesses (adaptController initialController 15 15 0) \<ge> 1
   \<and> currentBatchSize (adaptController (adaptController initialController 15 15 0) 15 15 0) = 18
   \<and> currentDelay (adaptController (adaptController initialController 15 15 0) 15 15 0) = 200"
proof -
  have a: "\<not> failureRecoveryMode initialController" by (simp add: initialController_def)
  have r: "js_ge (batchSuccessRate 15 15) 95" by (simp add: batchSuccessRate_def)
  have z: "consecutiveSuccesses initialController = 0" by (simp add: initialController_def)
  have v: "currentBatchSize initialController = 15 \<and> currentDelay initialController = 300"
    by (simp add: initialController_def)
  show ?thesis
    using a r z v C6_speed_up_when_streak_continues[OF a r, of 15 15]
    by simp
qed

text \<open>
  The specification lets the first such batch change nothing. After recovery mode is
  left on the third clean batch, the next clean batch is the first that occurs while not
  in recovery mode, and it changes the batch size from 13 to 16 and the delay from 600 to
  500 ms: the counter is not reset when recovery mode is left.
\<close>

theorem C6_first_batch_after_recovery_counterexample:
  "failureRecoveryMode afterTwoCleanInRecovery
   \<and> afterThirdClean = adaptController afterTwoCleanInRecovery 10 10 0
   \<and> \<not> failureRecoveryMode afterThirdClean
   \<and> selectBranch 13 13 0 = NearPerfect
   \<and> currentBatchSize afterThirdClean = 13
   \<and> currentDelay afterThirdClean = 600
   \<and> currentBatchSize (adaptController afterThirdClean 13 13 0) = 16
   \<and> currentDelay (adaptController afterThirdClean 13 13 0) = 500"
  by code_simp

subsection \<open>Retries\<close>

lemma retrySchedule_1: "retrySchedule call oid u (Suc 0) = [Fetch (call (Suc 0)) oid]"
  by (simp add: retrySchedule_def)
lemma retrySchedule_2: "retrySchedule call oid u 2 = [Fetch (call 1) oid, Sleep u, Fetch (call 2) oid]"
  by (simp add: retrySchedule_def upt_rec eval_nat_numeral)
lemma retrySchedule_3: "retrySchedule call oid u 3 =
   [Fetch (call 1) oid, Sleep u, Fetch (call 2) oid, Sleep (2 * u), Fetch (call 3) oid]"
  by (simp add: retrySchedule_def upt_rec eval_nat_numeral)
lemma retrySchedule_4: "retrySchedule call oid u 4 =
   [Fetch (call 1) oid, Sleep u, Fetch (call 2) oid, Sleep (2 * u), Fetch (call 3) oid,
    Sleep (3 * u), Fetch (call 4) oid]"
  by (simp add: retrySchedule_def upt_rec eval_nat_numeral)
lemma retrySchedule_5: "retrySchedule call oid u 5 =
   [Fetch (call 1) oid, Sleep u, Fetch (call 2) oid, Sleep (2 * u), Fetch (call 3) oid,
    Sleep (3 * u), Fetch (call 4) oid, Sleep (4 * u), Fetch (call 5) oid]"
  by (simp add: retrySchedule_def upt_rec eval_nat_numeral)

lemma attemptsMade_3:
  "attemptsMade env call oid 3 =
     (if getObligation env (call 1) oid \<noteq> None then 1
      else if getObligation env (call 2) oid \<noteq> None then 2 else 3)"
  by (simp add: attemptsMade_def upt_rec eval_nat_numeral)

lemma attemptsMade_5:
  "attemptsMade env call oid 5 =
     (if getObligation env (call 1) oid \<noteq> None then 1
      else if getObligation env (call 2) oid \<noteq> None then 2
      else if getObligation env (call 3) oid \<noteq> None then 3
      else if getObligation env (call 4) oid \<noteq> None then 4 else 5)"
  by (simp add: attemptsMade_def upt_rec eval_nat_numeral)

lemma fetchObligationMain_step:
  "fetchObligationMain env i capInfo g a =
     (if a \<le> 3 then
        (case getObligation env (MainFetch i g a) (obligationId capInfo) of
           Some ob \<Rightarrow> (Some (obligationData capInfo ob), [Fetch (MainFetch i g a) (obligationId capInfo)])
         | None \<Rightarrow>
             (if a = 3 then (None, [Fetch (MainFetch i g a) (obligationId capInfo)])
              else (fst (fetchObligationMain env i capInfo g (Suc a)),
                    Fetch (MainFetch i g a) (obligationId capInfo) # Sleep (int a * 1000)
                      # snd (fetchObligationMain env i capInfo g (Suc a)))))
      else (None, []))"
  by (rule trans[OF fetchObligationMain.simps]) (simp split: option.splits prod.splits)

lemma fetchObligationCleanup_step:
  "fetchObligationCleanup env capInfo i a =
     (if a \<le> 5 then
        (case getObligation env (CleanupFetch i a) (obligationId capInfo) of
           Some ob \<Rightarrow> (Some (obligationData capInfo ob), [Fetch (CleanupFetch i a) (obligationId capInfo)])
         | None \<Rightarrow>
             (fst (fetchObligationCleanup env capInfo i (Suc a)),
              Fetch (CleanupFetch i a) (obligationId capInfo)
                # (if a < 5 then [Sleep (int a * 2000)] else [])
                @ snd (fetchObligationCleanup env capInfo i (Suc a))))
      else (None, []))"
  by (rule trans[OF fetchObligationCleanup.simps]) (simp split: option.splits prod.splits)

lemma fetchObligationMain_cases:
  "fetchObligationMain env i capInfo g 1 =
    (case getObligation env (MainFetch i g 1) (obligationId capInfo) of
       Some ob \<Rightarrow> (Some (obligationData capInfo ob), retrySchedule (MainFetch i g) (obligationId capInfo) 1000 1)
     | None \<Rightarrow>
      (case getObligation env (MainFetch i g 2) (obligationId capInfo) of
         Some ob \<Rightarrow> (Some (obligationData capInfo ob), retrySchedule (MainFetch i g) (obligationId capInfo) 1000 2)
       | None \<Rightarrow>
        (case getObligation env (MainFetch i g 3) (obligationId capInfo) of
           Some ob \<Rightarrow> (Some (obligationData capInfo ob), retrySchedule (MainFetch i g) (obligationId capInfo) 1000 3)
         | None \<Rightarrow> (None, retrySchedule (MainFetch i g) (obligationId capInfo) 1000 3))))"
  unfolding retrySchedule_2 retrySchedule_3
  using fetchObligationMain_step[of env i capInfo g 1]
    fetchObligationMain_step[of env i capInfo g 2]
    fetchObligationMain_step[of env i capInfo g 3]
  by (simp add: retrySchedule_1 eval_nat_numeral split: option.splits)

lemma fetchObligationCleanup_cases:
  "fetchObligationCleanup env capInfo i 1 =
    (case getObligation env (CleanupFetch i 1) (obligationId capInfo) of
       Some ob \<Rightarrow> (Some (obligationData capInfo ob), retrySchedule (CleanupFetch i) (obligationId capInfo) 2000 1)
     | None \<Rightarrow>
      (case getObligation env (CleanupFetch i 2) (obligationId capInfo) of
         Some ob \<Rightarrow> (Some (obligationData capInfo ob), retrySchedule (CleanupFetch i) (obligationId capInfo) 2000 2)
       | None \<Rightarrow>
        (case getObligation env (CleanupFetch i 3) (obligationId capInfo) of
           Some ob \<Rightarrow> (Some (obligationData capInfo ob), retrySchedule (CleanupFetch i) (obligationId capInfo) 2000 3)
         | None \<Rightarrow>
          (case getObligation env (CleanupFetch i 4) (obligationId capInfo) of
             Some ob \<Rightarrow> (Some (obligationData capInfo ob), retrySchedule (CleanupFetch i) (obligationId capInfo) 2000 4)
           | None \<Rightarrow>
            (case getObligation env (CleanupFetch i 5) (obligationId capInfo) of
               Some ob \<Rightarrow> (Some (obligationData capInfo ob), retrySchedule (CleanupFetch i) (obligationId capInfo) 2000 5)
             | None \<Rightarrow> (None, retrySchedule (CleanupFetch i) (obligationId capInfo) 2000 5))))))"
  unfolding retrySchedule_2 retrySchedule_3 retrySchedule_4 retrySchedule_5
  using fetchObligationCleanup_step[of env capInfo i 1]
    fetchObligationCleanup_step[of env capInfo i 2]
    fetchObligationCleanup_step[of env capInfo i 3]
    fetchObligationCleanup_step[of env capInfo i 4]
    fetchObligationCleanup_step[of env capInfo i 5]
    fetchObligationCleanup_step[of env capInfo i 6]
  by (simp add: retrySchedule_1 eval_nat_numeral split: option.splits)

lemma main_budget:
  "snd (fetchObligationMain env i capInfo g 1)
     = retrySchedule (MainFetch i g) (obligationId capInfo) 1000
         (attemptsMade env (MainFetch i g) (obligationId capInfo) 3)
   \<and> 1 \<le> attemptsMade env (MainFetch i g) (obligationId capInfo) 3
   \<and> attemptsMade env (MainFetch i g) (obligationId capInfo) 3 \<le> 3
   \<and> (fst (fetchObligationMain env i capInfo g 1) = None \<longleftrightarrow>
        getObligation env (MainFetch i g 1) (obligationId capInfo) = None
        \<and> getObligation env (MainFetch i g 2) (obligationId capInfo) = None
        \<and> getObligation env (MainFetch i g 3) (obligationId capInfo) = None)"
  unfolding fetchObligationMain_cases attemptsMade_3
  by (auto split: option.splits)

lemma cleanup_budget:
  "snd (fetchObligationCleanup env capInfo k 1)
     = retrySchedule (CleanupFetch k) (obligationId capInfo) 2000
         (attemptsMade env (CleanupFetch k) (obligationId capInfo) 5)
   \<and> 1 \<le> attemptsMade env (CleanupFetch k) (obligationId capInfo) 5
   \<and> attemptsMade env (CleanupFetch k) (obligationId capInfo) 5 \<le> 5
   \<and> (fst (fetchObligationCleanup env capInfo k 1) = None \<longleftrightarrow>
        getObligation env (CleanupFetch k 1) (obligationId capInfo) = None
        \<and> getObligation env (CleanupFetch k 2) (obligationId capInfo) = None
        \<and> getObligation env (CleanupFetch k 3) (obligationId capInfo) = None
        \<and> getObligation env (CleanupFetch k 4) (obligationId capInfo) = None
        \<and> getObligation env (CleanupFetch k 5) (obligationId capInfo) = None)"
  unfolding fetchObligationCleanup_cases attemptsMade_5
  by (auto split: option.splits)

lemma main_fetch_char:
  "fetchObligationMain env i capInfo g 1 =
     (retryResult env (MainFetch i g) capInfo 3, recordEffects env (MainFetch i g) capInfo 1000 3)"
  unfolding fetchObligationMain_cases retryResult_def recordEffects_def attemptsMade_3
  by (auto split: option.splits)

lemma cleanup_fetch_char:
  "fetchObligationCleanup env capInfo k 1 =
     (retryResult env (CleanupFetch k) capInfo 5,
      recordEffects env (CleanupFetch k) capInfo 2000 5)"
  unfolding fetchObligationCleanup_cases retryResult_def recordEffects_def attemptsMade_5
  by (auto split: option.splits)

lemma main_fetch_char_Suc:
  "fetchObligationMain env i capInfo g (Suc 0) =
     (retryResult env (MainFetch i g) capInfo 3, recordEffects env (MainFetch i g) capInfo 1000 3)"
  using main_fetch_char[of env i capInfo g] by simp

lemma cleanup_fetch_char_Suc:
  "fetchObligationCleanup env capInfo k (Suc 0) =
     (retryResult env (CleanupFetch k) capInfo 5,
      recordEffects env (CleanupFetch k) capInfo 2000 5)"
  using cleanup_fetch_char[of env capInfo k] by simp

lemma fetchBatch_results: "map fst (fetchBatch env i batch) = mainPassResults env i batch"
  by (simp add: fetchBatch_def mainPassResults_def main_fetch_char_Suc split_def)

lemma fetchBatch_effects: "concat (map snd (fetchBatch env i batch)) = mainPassEffects env i batch"
  by (simp add: fetchBatch_def mainPassEffects_def main_fetch_char_Suc split_def comp_def)

lemma summariesOf_simps:
  "summariesOf [] = []"
  "summariesOf (None # rs) = summariesOf rs"
  "summariesOf (Some r # rs) = r # summariesOf rs"
  by (simp_all add: summariesOf_def List.map_filter_simps)

lemma tallyBatch_acc:
  "fst (tallyBatch (a, s, f) rs) = foldl pushObligation a (summariesOf rs)"
proof (induction rs arbitrary: a s f)
  case Nil
  show ?case by (simp add: summariesOf_simps)
next
  case (Cons r rs)
  show ?case
  proof (cases r)
    case None
    then show ?thesis using Cons.IH[of a s "f + 1"] by (simp add: summariesOf_simps)
  next
    case (Some d)
    then show ?thesis using Cons.IH[of "pushObligation a d" "s + 1" f]
      by (simp add: summariesOf_simps)
  qed
qed

lemma obligations_foldl_push:
  "obligations (foldl pushObligation a ds) = obligations a @ ds"
  by (induction ds arbitrary: a) (simp_all add: pushObligation_def)

lemma processBatch_pass:
  "acc (processBatch env caps i st)
     = foldl pushObligation (acc st) (summariesOf (mainPassResults env i (batchAt caps i st)))
   \<and> effects (processBatch env caps i st)
     = effects st @ mainPassEffects env i (batchAt caps i st)
       @ (if i + currentBatchSize (ctrl (processBatch env caps i st)) < int (length caps)
          then [Sleep (currentDelay (ctrl (processBatch env caps i st)))] else [])"
  by (simp add: processBatch_def Let_def batchAt_def fetchBatch_results fetchBatch_effects
      tallyBatch_acc)

lemma cleanupLoop_from:
  "i \<le> length failed \<Longrightarrow>
   cleanupLoop env failed i (a, n, es) =
     (foldl pushObligation a
        (summariesOf (map (\<lambda>k. retryResult env (CleanupFetch k) (failed ! k) 5) [i..<length failed])),
      n + length (filter (\<lambda>r. r \<noteq> None)
            (map (\<lambda>k. retryResult env (CleanupFetch k) (failed ! k) 5) [i..<length failed])),
      es @ concat (map (\<lambda>k. recordEffects env (CleanupFetch k) (failed ! k) 2000 5
                        @ (if int k < int (length failed) - 1 then [Sleep 1500] else []))
                 [i..<length failed]))"
proof (induction "length failed - i" arbitrary: i a n es)
  case 0
  then have "i = length failed" by simp
  then show ?case
    by (subst cleanupLoop.simps) (simp add: summariesOf_simps)
next
  case (Suc m)
  then have lt: "i < length failed" by simp
  have up: "[i..<length failed] = i # [Suc i..<length failed]"
    using lt by (simp add: upt_conv_Cons)
  have m: "m = length failed - Suc i" using Suc.hyps(2) by simp
  have le: "Suc i \<le> length failed" using lt by simp
  let ?r = "retryResult env (CleanupFetch i) (failed ! i) 5"
  let ?e = "recordEffects env (CleanupFetch i) (failed ! i) 2000 5
              @ (if int i < int (length failed) - 1 then [Sleep 1500] else [])"
  have step: "cleanupLoop env failed i (a, n, es) =
      cleanupLoop env failed (Suc i)
        ((case ?r of Some d \<Rightarrow> pushObligation a d | None \<Rightarrow> a),
         (case ?r of Some d \<Rightarrow> n + 1 | None \<Rightarrow> n),
         es @ ?e)"
    using lt by (subst cleanupLoop.simps) (simp add: cleanup_fetch_char_Suc)
  show ?case
    unfolding step Suc.hyps(1)[OF m le] up
    by (cases ?r) (simp_all add: summariesOf_simps)
qed

lemma cleanupLoop_pass:
  "cleanupLoop env failed 0 (a, n, es) =
     (foldl pushObligation a (summariesOf (cleanupResults env failed)),
      n + length (filter (\<lambda>r. r \<noteq> None) (cleanupResults env failed)),
      es @ cleanupEffects env failed)"
  using cleanupLoop_from[of 0 failed env a n es]
  by (simp add: cleanupResults_def cleanupEffects_def)

lemma cleanupPass_pass:
  "cleanupPass env caps st =
     (if int (length caps) - int (length (obligations (acc st))) > 0
      then st\<lparr>acc := foldl pushObligation (acc st)
                       (summariesOf (cleanupResults env (failedCapInfos caps (obligations (acc st))))),
              effects := effects st @ cleanupEffects env (failedCapInfos caps (obligations (acc st)))\<rparr>
      else st)"
  by (simp add: cleanupPass_def initialFailedCount_def cleanupLoop_pass)

text \<open>
  C8. A position fetch that fails is retried within its pass: the main pass makes at most
  3 attempts and waits \<open>attempt * 1000\<close> ms between two attempts, the cleanup pass makes
  at most 5 attempts and waits \<open>attempt * 2000\<close> ms between two attempts; the attempts
  stop at the first answer. The result is \<open>null\<close> (main pass) or not recovered (cleanup
  pass) exactly when every attempt of the budget fails, and then the record adds nothing
  to the running variables.

  The passes make their fetches this way: an iteration of the main pass adds, for the
  records of its batch in order, the summaries and the effects of fetches with budget 3
  and unit 1000, then its wait; the cleanup loop over any list of records adds the
  summaries and the effects of fetches with budget 5 and unit 2000, with 1500 ms after
  every record but the last; the cleanup pass runs that loop over the failed records when
  their count is positive. Whatever the position service does, a run whose discovery
  found an object and whose client initialised goes through the main loop and the cleanup
  pass and ends with the report of their accumulators, never in the outer \<open>catch\<close>.
\<close>

theorem C8_retry_budget:
  "(snd (fetchObligationMain env i capInfo g 1)
     = retrySchedule (MainFetch i g) (obligationId capInfo) 1000
         (attemptsMade env (MainFetch i g) (obligationId capInfo) 3)
   \<and> 1 \<le> attemptsMade env (MainFetch i g) (obligationId capInfo) 3
   \<and> attemptsMade env (MainFetch i g) (obligationId capInfo) 3 \<le> 3
   \<and> (fst (fetchObligationMain env i capInfo g 1) = None \<longleftrightarrow>
        getObligation env (MainFetch i g 1) (obligationId capInfo) = None
        \<and> getObligation env (MainFetch i g 2) (obligationId capInfo) = None
        \<and> getObligation env (MainFetch i g 3) (obligationId capInfo) = None))
   \<and> (snd (fetchObligationCleanup env capInfo k 1)
     = retrySchedule (CleanupFetch k) (obligationId capInfo) 2000
         (attemptsMade env (CleanupFetch k) (obligationId capInfo) 5)
   \<and> 1 \<le> attemptsMade env (CleanupFetch k) (obligationId capInfo) 5
   \<and> attemptsMade env (CleanupFetch k) (obligationId capInfo) 5 \<le> 5
   \<and> (fst (fetchObligationCleanup env capInfo k 1) = None \<longleftrightarrow>
        getObligation env (CleanupFetch k 1) (obligationId capInfo) = None
        \<and> getObligation env (CleanupFetch k 2) (obligationId capInfo) = None
        \<and> getObligation env (CleanupFetch k 3) (obligationId capInfo) = None
        \<and> getObligation env (CleanupFetch k 4) (obligationId capInfo) = None
        \<and> getObligation env (CleanupFetch k 5) (obligationId capInfo) = None))
   \<and> tallyBatch (a, s, f) [None] = (a, s, f + 1)
   \<and> (fst (fetchObligationCleanup env capInfo 0 1) = None \<longrightarrow>
        fst (cleanupLoop env [capInfo] 0 (a, n, es0)) = a)
   \<and> (fetchEventPages env True None 0 [] = Some evs \<and> resolvedCaps env evs \<noteq> []
        \<and> initialize env \<longrightarrow>
        (\<exists>r es. calculateStrategyWrapperTVL env = Some (Completed r, es)))
   \<and> fetchObligationMain env i capInfo g 1
       = (retryResult env (MainFetch i g) capInfo 3,
          recordEffects env (MainFetch i g) capInfo 1000 3)
   \<and> fetchObligationCleanup env capInfo k 1
       = (retryResult env (CleanupFetch k) capInfo 5,
          recordEffects env (CleanupFetch k) capInfo 2000 5)
   \<and> acc (processBatch env caps j st)
       = foldl pushObligation (acc st)
           (summariesOf (mainPassResults env j (batchAt caps j st)))
   \<and> batchResults env caps j st = mainPassResults env j (batchAt caps j st)
   \<and> effects (processBatch env caps j st)
       = effects st @ mainPassEffects env j (batchAt caps j st)
         @ (if j + currentBatchSize (ctrl (processBatch env caps j st)) < int (length caps)
            then [Sleep (currentDelay (ctrl (processBatch env caps j st)))] else [])
   \<and> cleanupLoop env failed 0 (a, n, es0)
       = (foldl pushObligation a (summariesOf (cleanupResults env failed)),
          n + length (filter (\<lambda>r. r \<noteq> None) (cleanupResults env failed)),
          es0 @ cleanupEffects env failed)
   \<and> cleanupPass env caps st
       = (if int (length caps) - int (length (obligations (acc st))) > 0
          then st\<lparr>acc := foldl pushObligation (acc st)
                     (summariesOf
                        (cleanupResults env (failedCapInfos caps (obligations (acc st))))),
                  effects := effects st
                     @ cleanupEffects env (failedCapInfos caps (obligations (acc st)))\<rparr>
          else st)
   \<and> (fetchEventPages env True None 0 [] = Some evs \<and> resolvedCaps env evs \<noteq> []
        \<and> initialize env \<longrightarrow>
        (\<exists>m st'. mainLoop env (extractCapInfos (resolvedCaps env evs)) 0 initialState = Some st'
           \<and> loopReaches env (extractCapInfos (resolvedCaps env evs)) m st'
           \<and> \<not> m < int (length (extractCapInfos (resolvedCaps env evs)))
           \<and> calculateStrategyWrapperTVL env
               = Some (Completed (tvlSummary
                         (acc (cleanupPass env (extractCapInfos (resolvedCaps env evs)) st'))),
                       effects (cleanupPass env (extractCapInfos (resolvedCaps env evs)) st'))))"
proof -
  have single: "fst (cleanupLoop env [capInfo] 0 (a, n, es0)) = a"
    if none: "fst (fetchObligationCleanup env capInfo 0 1) = None"
  proof -
    obtain fes where fx: "fetchObligationCleanup env capInfo 0 (Suc 0) = (None, fes)"
      using none by (cases "fetchObligationCleanup env capInfo 0 (Suc 0)") simp
    have stop: "cleanupLoop env [capInfo] (Suc 0) st = st" for st
      by (subst cleanupLoop.simps) simp
    show ?thesis
      by (subst cleanupLoop.simps) (simp add: fx stop)
  qed
  have run: "\<exists>m st'. mainLoop env (extractCapInfos (resolvedCaps env evs)) 0 initialState = Some st'
           \<and> loopReaches env (extractCapInfos (resolvedCaps env evs)) m st'
           \<and> \<not> m < int (length (extractCapInfos (resolvedCaps env evs)))
           \<and> calculateStrategyWrapperTVL env
               = Some (Completed (tvlSummary
                         (acc (cleanupPass env (extractCapInfos (resolvedCaps env evs)) st'))),
                       effects (cleanupPass env (extractCapInfos (resolvedCaps env evs)) st'))"
    if h: "fetchEventPages env True None 0 [] = Some evs" "resolvedCaps env evs \<noteq> []"
      "initialize env"
  proof -
    obtain m st' where
      ml: "mainLoop env (extractCapInfos (resolvedCaps env evs)) 0 initialState = Some st'"
      and lr: "loopReaches env (extractCapInfos (resolvedCaps env evs)) m st'"
      and fin: "\<not> m < int (length (extractCapInfos (resolvedCaps env evs)))"
      using mainLoop_reaches by blast
    have "calculateStrategyWrapperTVL env
               = Some (Completed (tvlSummary
                         (acc (cleanupPass env (extractCapInfos (resolvedCaps env evs)) st'))),
                       effects (cleanupPass env (extractCapInfos (resolvedCaps env evs)) st'))"
      using h ml by (simp add: calculateStrategyWrapperTVL_def fetchAndAggregate_def)
    with ml lr fin show ?thesis by blast
  qed
  have results: "batchResults env caps j st = mainPassResults env j (batchAt caps j st)"
    by (simp add: batchResults_def fetchBatch_results)
  show ?thesis
    using single run results
      main_budget[of env i capInfo g] cleanup_budget[of env capInfo k]
      pipeline_completes[of env evs]
      main_fetch_char[of env i capInfo g] cleanup_fetch_char[of env capInfo k]
      processBatch_pass[of env caps j st] cleanupLoop_pass[of env failed a n es0]
      cleanupPass_pass[of env caps st]
    by (simp del: One_nat_def)
qed

theorem C8_retry_budget_witness:
  "fetchObligationMain (demoEnv 1 alwaysFails) 0 (hd (demoCaps 1)) 0 1
     = (None, [Fetch (MainFetch 0 0 1) ''ob0x'', Sleep 1000, Fetch (MainFetch 0 0 2) ''ob0x'',
               Sleep 2000, Fetch (MainFetch 0 0 3) ''ob0x''])
   \<and> fetchObligationCleanup (demoEnv 1 alwaysFails) (hd (demoCaps 1)) 0 1
     = (None, [Fetch (CleanupFetch 0 1) ''ob0x'', Sleep 2000, Fetch (CleanupFetch 0 2) ''ob0x'',
               Sleep 4000, Fetch (CleanupFetch 0 3) ''ob0x'', Sleep 6000,
               Fetch (CleanupFetch 0 4) ''ob0x'', Sleep 8000, Fetch (CleanupFetch 0 5) ''ob0x''])
   \<and> attemptsMade (demoEnv 1 alwaysFails) (MainFetch 0 0) ''ob0x'' 3 = 3
   \<and> attemptsMade (demoEnv 1 alwaysFails) (CleanupFetch 0) ''ob0x'' 5 = 5
   \<and> fetchEventPages (demoEnv 1 alwaysFails) True None 0 []
       = Some [\<lparr>parsedJson = Some \<lparr>cap_id = Some ''0x''\<rparr>\<rparr>]
   \<and> resolvedCaps (demoEnv 1 alwaysFails) [\<lparr>parsedJson = Some \<lparr>cap_id = Some ''0x''\<rparr>\<rparr>] \<noteq> []
   \<and> initialize (demoEnv 1 alwaysFails)
   \<and> calculateStrategyWrapperTVL (demoEnv 1 alwaysFails)
       = Some (Completed \<lparr>obligations = [], totalTVL = 0, totalDeposits = 0, totalBorrows = 0,
                          strategyCount = 0\<rparr>,
               [Fetch (MainFetch 0 0 1) ''ob0x'', Sleep 1000, Fetch (MainFetch 0 0 2) ''ob0x'',
                Sleep 2000, Fetch (MainFetch 0 0 3) ''ob0x'',
                Fetch (CleanupFetch 0 1) ''ob0x'', Sleep 2000, Fetch (CleanupFetch 0 2) ''ob0x'',
                Sleep 4000, Fetch (CleanupFetch 0 3) ''ob0x'', Sleep 6000,
                Fetch (CleanupFetch 0 4) ''ob0x'', Sleep 8000, Fetch (CleanupFetch 0 5) ''ob0x''])
   \<and> map_option snd (calculateStrategyWrapperTVL (demoEnv 2 failsUntilSecondCleanupAttempt))
       = Some [Fetch (MainFetch 0 0 1) ''ob0x'', Sleep 1000, Fetch (MainFetch 0 0 2) ''ob0x'',
               Sleep 2000, Fetch (MainFetch 0 0 3) ''ob0x'', Fetch (MainFetch 0 1 1) ''ob0x1'',
               Fetch (CleanupFetch 0 1) ''ob0x'', Sleep 2000, Fetch (CleanupFetch 0 2) ''ob0x'']
   \<and> map_option (\<lambda>r. map objectId (obligations r))
        (reportOf (calculateStrategyWrapperTVL (demoEnv 2 failsUntilSecondCleanupAttempt)))
       = Some [''0x1'', ''0x'']
   \<and> cleanupLoop (demoEnv 2 alwaysFails) (demoCaps 2) 0 (acc initialState, 0, [])
       = (acc initialState, 0,
          [Fetch (CleanupFetch 0 1) ''ob0x'', Sleep 2000, Fetch (CleanupFetch 0 2) ''ob0x'',
           Sleep 4000, Fetch (CleanupFetch 0 3) ''ob0x'', Sleep 6000,
           Fetch (CleanupFetch 0 4) ''ob0x'', Sleep 8000, Fetch (CleanupFetch 0 5) ''ob0x'',
           Sleep 1500,
           Fetch (CleanupFetch 1 1) ''ob0x1'', Sleep 2000, Fetch (CleanupFetch 1 2) ''ob0x1'',
           Sleep 4000, Fetch (CleanupFetch 1 3) ''ob0x1'', Sleep 6000,
           Fetch (CleanupFetch 1 4) ''ob0x1'', Sleep 8000, Fetch (CleanupFetch 1 5) ''ob0x1''])"
proof -
  let ?E = "demoEnv 1 alwaysFails"
  let ?evs = "[\<lparr>parsedJson = Some \<lparr>cap_id = Some ''0x''\<rparr>\<rparr>]"
  have m: "fetchObligationMain ?E 0 (hd (demoCaps 1)) 0 1
     = (None, [Fetch (MainFetch 0 0 1) ''ob0x'', Sleep 1000, Fetch (MainFetch 0 0 2) ''ob0x'',
               Sleep 2000, Fetch (MainFetch 0 0 3) ''ob0x''])"
    by code_simp
  have c: "fetchObligationCleanup ?E (hd (demoCaps 1)) 0 1
     = (None, [Fetch (CleanupFetch 0 1) ''ob0x'', Sleep 2000, Fetch (CleanupFetch 0 2) ''ob0x'',
               Sleep 4000, Fetch (CleanupFetch 0 3) ''ob0x'', Sleep 6000,
               Fetch (CleanupFetch 0 4) ''ob0x'', Sleep 8000, Fetch (CleanupFetch 0 5) ''ob0x''])"
    by code_simp
  have a3: "attemptsMade ?E (MainFetch 0 0) ''ob0x'' 3 = 3" by code_simp
  have a5: "attemptsMade ?E (CleanupFetch 0) ''ob0x'' 5 = 5" by code_simp
  have p: "fetchEventPages ?E True None 0 [] = Some ?evs" by code_simp
  have r: "resolvedCaps ?E ?evs \<noteq> []" by code_simp
  have i: "initialize ?E" by code_simp
  have run1: "calculateStrategyWrapperTVL ?E
       = Some (Completed \<lparr>obligations = [], totalTVL = 0, totalDeposits = 0, totalBorrows = 0,
                          strategyCount = 0\<rparr>,
               [Fetch (MainFetch 0 0 1) ''ob0x'', Sleep 1000, Fetch (MainFetch 0 0 2) ''ob0x'',
                Sleep 2000, Fetch (MainFetch 0 0 3) ''ob0x'',
                Fetch (CleanupFetch 0 1) ''ob0x'', Sleep 2000, Fetch (CleanupFetch 0 2) ''ob0x'',
                Sleep 4000, Fetch (CleanupFetch 0 3) ''ob0x'', Sleep 6000,
                Fetch (CleanupFetch 0 4) ''ob0x'', Sleep 8000, Fetch (CleanupFetch 0 5) ''ob0x''])"
    by code_simp
  have run2: "map_option snd (calculateStrategyWrapperTVL (demoEnv 2 failsUntilSecondCleanupAttempt))
       = Some [Fetch (MainFetch 0 0 1) ''ob0x'', Sleep 1000, Fetch (MainFetch 0 0 2) ''ob0x'',
               Sleep 2000, Fetch (MainFetch 0 0 3) ''ob0x'', Fetch (MainFetch 0 1 1) ''ob0x1'',
               Fetch (CleanupFetch 0 1) ''ob0x'', Sleep 2000, Fetch (CleanupFetch 0 2) ''ob0x'']"
    by code_simp
  have rep2: "map_option (\<lambda>r. map objectId (obligations r))
        (reportOf (calculateStrategyWrapperTVL (demoEnv 2 failsUntilSecondCleanupAttempt)))
       = Some [''0x1'', ''0x'']"
    by code_simp
  have loop2: "cleanupLoop (demoEnv 2 alwaysFails) (demoCaps 2) 0 (acc initialState, 0, [])
       = (acc initialState, 0,
          [Fetch (CleanupFetch 0 1) ''ob0x'', Sleep 2000, Fetch (CleanupFetch 0 2) ''ob0x'',
           Sleep 4000, Fetch (CleanupFetch 0 3) ''ob0x'', Sleep 6000,
           Fetch (CleanupFetch 0 4) ''ob0x'', Sleep 8000, Fetch (CleanupFetch 0 5) ''ob0x'',
           Sleep 1500,
           Fetch (CleanupFetch 1 1) ''ob0x1'', Sleep 2000, Fetch (CleanupFetch 1 2) ''ob0x1'',
           Sleep 4000, Fetch (CleanupFetch 1 3) ''ob0x1'', Sleep 6000,
           Fetch (CleanupFetch 1 4) ''ob0x1'', Sleep 8000, Fetch (CleanupFetch 1 5) ''ob0x1''])"
    by code_simp
  show ?thesis
    using m c a3 a5 p r i run1 run2 rep2 loop2
      C8_retry_budget[where env = ?E and i = 0 and capInfo = "hd (demoCaps 1)" and g = 0
        and k = 0 and a = "acc initialState" and s = 0 and f = 0 and n = 0 and ?es0.0 = "[]"
        and evs = ?evs and caps = "demoCaps 1" and j = 0 and st = initialState
        and failed = "demoCaps 1"]
    by simp
qed

subsection \<open>Runs in which the batch size changes\<close>

text \<open>
  The loop cuts the batch at \<open>i\<close> with the batch size it has when the iteration starts
  and advances \<open>i\<close> by the batch size the iteration has set. When the size shrinks, the
  next batch starts inside the previous one. (The older variant of the function in the
  same file, lines 1615 to 1617, cuts and advances with one constant size.)

  C1. A run over 15 records in which the first record fails its three attempts: the
  first batch holds all 15 records, its single failure shrinks the batch size to 13, and
  the second batch starts at index 13. The records 13 and 14 are fetched again, each gets
  a second summary, and the totals count 16 USD for 15 records of 1 USD of which one was
  never fetched successfully.
\<close>

theorem C1_records_summarised_twice:
  "map_option (\<lambda>evs. extractCapInfos (resolvedCaps (demoEnv 15 firstRecordFails) evs))
      (fetchEventPages (demoEnv 15 firstRecordFails) True None 0 []) = Some (demoCaps 15)
   \<and> map_option (\<lambda>r. map objectId (obligations r))
        (reportOf (calculateStrategyWrapperTVL (demoEnv 15 firstRecordFails)))
      = Some (map demoId [1, 2, 3, 4, 5, 6, 7, 8, 9, 10, 11, 12, 13, 14, 13, 14])
   \<and> map_option (\<lambda>r. length (filter (\<lambda>ob. objectId ob = demoId 13) (obligations r)))
        (reportOf (calculateStrategyWrapperTVL (demoEnv 15 firstRecordFails))) = Some 2
   \<and> map_option totalTVL (reportOf (calculateStrategyWrapperTVL (demoEnv 15 firstRecordFails)))
      = Some 16
   \<and> map_option totalDeposits (reportOf (calculateStrategyWrapperTVL (demoEnv 15 firstRecordFails)))
      = Some 16
   \<and> map_option (\<lambda>r. map deposited_value_usd (obligations r))
        (reportOf (calculateStrategyWrapperTVL (demoEnv 15 firstRecordFails)))
      = Some (replicate 16 1)"
  by code_simp

text \<open>
  C2. In the same run the report counts 16 positions and lists 16 entries, for 15
  extracted records; the failed-record count of line 477 is then \<open>15 - 16\<close>, not
  positive, and the cleanup pass makes no call.
\<close>

theorem C2_count_exceeds_records:
  "map_option (\<lambda>evs. length (extractCapInfos (resolvedCaps (demoEnv 15 firstRecordFails) evs)))
      (fetchEventPages (demoEnv 15 firstRecordFails) True None 0 []) = Some 15
   \<and> map_option strategyCount (reportOf (calculateStrategyWrapperTVL (demoEnv 15 firstRecordFails)))
      = Some 16
   \<and> map_option (\<lambda>r. length (obligations r))
        (reportOf (calculateStrategyWrapperTVL (demoEnv 15 firstRecordFails))) = Some 16
   \<and> map_option (\<lambda>res. filter isCleanupFetch (snd res))
        (calculateStrategyWrapperTVL (demoEnv 15 firstRecordFails)) = Some []"
  by code_simp

subsection \<open>Runs on the boundaries of the controller's branches\<close>

text \<open>
  C4. A batch of 4 records with 1 failure has a failure fraction of 25 % and a success
  rate of 75 %. The test of line 384 compares the failures with the 20 % of the length
  rounded up, which is 1, so the batch takes the cautious branch: from the initial
  controller the batch size becomes 13, the delay 500 ms, and recovery mode stays off. The
  run over 19 records in which the record with index 15 fails has such a second batch.
\<close>

theorem C4_quarter_of_batch_fails_cautious:
  "\<not> hasSignificantFailures 1 4
   \<and> batchSuccessRate 3 4 = Num 75
   \<and> selectBranch 4 3 1 = CautiousAdjustment
   \<and> adaptController initialController 4 3 1
      = \<lparr>currentBatchSize = 13, currentDelay = 500, consecutiveSuccesses = 0,
         consecutiveFailures = 0, failureRecoveryMode = False, lastFailureCount = 1\<rparr>
   \<and> map_option (\<lambda>evs. extractCapInfos (resolvedCaps (demoEnv 19 sixteenthRecordFails) evs))
        (fetchEventPages (demoEnv 19 sixteenthRecordFails) True None 0 []) = Some (demoCaps 19)
   \<and> map_option ctrl (mainLoop (demoEnv 19 sixteenthRecordFails) (demoCaps 19) 0 initialState)
      = Some \<lparr>currentBatchSize = 13, currentDelay = 500, consecutiveSuccesses = 1,
              consecutiveFailures = 0, failureRecoveryMode = False, lastFailureCount = 1\<rparr>"
  by code_simp

text \<open>
  C5. In recovery mode with two clean batches counted, a batch of 10 with one failure
  takes the cautious branch, which leaves \<open>consecutiveSuccesses\<close> at 2; the next clean
  batch raises it to 3 and leaves recovery mode, one clean batch after a batch with a
  failure. The run over 46 records with four failures in the batch at index 0 and one in
  the batch at index 30 goes through these states.
\<close>

theorem C5_recovery_left_after_one_clean_batch:
  "afterTwoCleanInRecovery
      = \<lparr>currentBatchSize = 10, currentDelay = 700, consecutiveSuccesses = 2,
         consecutiveFailures = 0, failureRecoveryMode = True, lastFailureCount = 4\<rparr>
   \<and> selectBranch 10 9 1 = CautiousAdjustment
   \<and> afterCautiousInRecovery
      = \<lparr>currentBatchSize = 8, currentDelay = 900, consecutiveSuccesses = 2,
         consecutiveFailures = 0, failureRecoveryMode = True, lastFailureCount = 1\<rparr>
   \<and> adaptController afterCautiousInRecovery 8 8 0
      = \<lparr>currentBatchSize = 11, currentDelay = 800, consecutiveSuccesses = 3,
         consecutiveFailures = 0, failureRecoveryMode = False, lastFailureCount = 1\<rparr>
   \<and> map_option (\<lambda>evs. extractCapInfos (resolvedCaps (demoEnv 46 fourThenOneFail) evs))
        (fetchEventPages (demoEnv 46 fourThenOneFail) True None 0 []) = Some (demoCaps 46)
   \<and> map_option ctrl (mainLoop (demoEnv 46 fourThenOneFail) (demoCaps 46) 0 initialState)
      = Some (adaptController afterCautiousInRecovery 8 8 0)"
  by code_simp

end
